theory Spec2Isabelle
  imports Main
begin

section \<open>update-existing-release: the action of \<^verbatim>\<open>src/main.ts\<close>\<close>

text \<open>
  The action builds one \<^verbatim>\<open>Connection\<close> object from the process inputs and calls its
  \<^verbatim>\<open>run\<close> method, which talks to the hosting platform through the Octokit client.
  The embedding has three layers:
  \<^item> the pure helpers (\<^verbatim>\<open>isTruthyString\<close>, \<^verbatim>\<open>isFalsyString\<close>, the string replacements
    of \<^verbatim>\<open>setRelease\<close>, the splitting of the file list);
  \<^item> the process environment the constructor reads (inputs, environment variables, the
    local file system and Node's \<^verbatim>\<open>path\<close> functions), taken as a record of parameters;
  \<^item> the remote platform, an explicit state that every Octokit call reads or changes
    and in which every call is logged.
  \<^verbatim>\<open>Connection.fail\<close> ends the process (\<^verbatim>\<open>process.exit(2)\<close>), so a method either returns a
  value with the new remote state (\<open>Inr\<close>) or ends the run with an error and the remote
  state reached so far (\<open>Inl\<close>).
\<close>

subsection \<open>Pure helpers\<close>

definition isTruthyString :: "string \<Rightarrow> bool" where
  "isTruthyString string = (string = ''true'' \<or> string = ''yes'')"

definition isFalsyString :: "string \<Rightarrow> bool" where
  "isFalsyString string = (string = ''false'' \<or> string = ''no'')"

text \<open>
  \<^verbatim>\<open>s.replace(/pat/, rep)\<close> with a regular expression that is a literal text and has no
  \<^verbatim>\<open>g\<close> flag: the first occurrence of the text, wherever it is, is replaced.
\<close>

fun replaceFirst :: "string \<Rightarrow> string \<Rightarrow> string \<Rightarrow> string" where
  "replaceFirst pat rep [] = (if pat = [] then rep else [])"
| "replaceFirst pat rep (c # cs) =
     (if take (length pat) (c # cs) = pat then rep @ drop (length pat) (c # cs)
      else c # replaceFirst pat rep cs)"

text \<open>\<^verbatim>\<open>s.replace(/\//g, '-')\<close>: every slash becomes a dash.\<close>

definition replaceSlashes :: "string \<Rightarrow> string" where
  "replaceSlashes s = map (\<lambda>c. if c = CHR ''/'' then CHR ''-'' else c) s"

text \<open>\<^verbatim>\<open>tryPath.replace(/\\/g, '/')\<close>: every backslash becomes a slash.\<close>

definition replaceBackslashes :: "string \<Rightarrow> string" where
  "replaceBackslashes s = map (\<lambda>c. if c = CHR 0x5C then CHR ''/'' else c) s"

text \<open>
  \<^verbatim>\<open>inputFileString.split(/[ ,\r\n\t]+/)\<close>: the tokens between maximal runs of
  delimiters; a leading or trailing run leaves an empty token, and the empty string
  splits into one empty token.
\<close>

definition isDelimiter :: "char \<Rightarrow> bool" where
  "isDelimiter c = (c = CHR '' '' \<or> c = CHR '','' \<or> c = CHR 0x0D \<or> c = CHR 0x0A \<or> c = CHR 0x09)"

fun splitLoop :: "bool \<Rightarrow> string \<Rightarrow> string \<Rightarrow> string list" where
  "splitLoop inRun cur [] = [rev cur]"
| "splitLoop inRun cur (c # cs) =
     (if isDelimiter c
      then (if inRun then splitLoop True cur cs else rev cur # splitLoop True [] cs)
      else splitLoop False (c # cur) cs)"

definition splitFiles :: "string \<Rightarrow> string list" where
  "splitFiles inputFileString = splitLoop False [] inputFileString"

subsection \<open>The process environment\<close>

text \<open>
  What the constructor and the upload loop read from outside the program:
  \<^verbatim>\<open>core.getInput\<close> (the trimmed value of an input, empty when it is not set; and
  whether the untrimmed value is non-empty, which is what \<^verbatim>\<open>required: true\<close> tests), the
  environment variables (taken as set), \<^verbatim>\<open>fs\<close> (\<open>None\<close> where the call throws), Node's
  \<^verbatim>\<open>path\<close> functions, \<^verbatim>\<open>mime-types\<close>' \<^verbatim>\<open>lookup\<close> (\<open>None\<close> for its \<^verbatim>\<open>false\<close>) and the
  clock read by \<^verbatim>\<open>new Tagger()\<close>.
\<close>

record environment =
  getInput :: "string \<Rightarrow> string"
  supplied :: "string \<Rightarrow> bool"
  GITHUB_REF :: string
  GITHUB_SHA :: string
  GITHUB_WORKSPACE :: string
  existsSync :: "string \<Rightarrow> bool"
  statSync :: "string \<Rightarrow> nat option"
  readFileSync :: "string \<Rightarrow> string option"
  isAbsolute :: "string \<Rightarrow> bool"
  resolve :: "string \<Rightarrow> string \<Rightarrow> string"
  basename :: "string \<Rightarrow> string"
  lookup :: "string \<Rightarrow> string option"
  toISOString :: string

subsection \<open>Calls and errors\<close>

record Tagger =
  tagger_name :: string
  tagger_email :: string
  tagger_date :: string

datatype url = UploadUrl int

datatype call =
    ListTags
  | CreateTag string string string string Tagger
  | CreateRef string string
  | UpdateRef string string
  | ListReleases
  | CreateRelease string string string bool bool
  | UpdateRelease int string string bool bool
  | ListReleaseAssets int
  | DeleteReleaseAsset int
  | UploadReleaseAsset int url string nat string string
  | GetCommit string

datatype error =
    InputRequired string
  | CouldNotFind string
  | CouldNotFindFile string
  | RequestFailed call
  | FileSystemError string
  | AssetsNotIterable
  | CouldNotFindId string
  | CouldNotFindUploadUrl string

subsection \<open>The Connection object and its setters\<close>

record Connection =
  ref :: string
  release :: string
  sha :: string
  tag :: string
  message :: string
  body :: string
  draft :: bool
  prerelease :: bool
  files :: "string list"

text \<open>
  \<^verbatim>\<open>core.getInput(name, { required: true })\<close> throws when the input was not supplied.
  Both uses are in the constructor, outside any \<^verbatim>\<open>try\<close>: the exception ends the program.
\<close>

definition getInputRequired :: "environment \<Rightarrow> string \<Rightarrow> error + string" where
  "getInputRequired env n = (if supplied env n then Inr (getInput env n) else Inl (InputRequired n))"

text \<open>The initial values of the class fields.\<close>

definition newConnection :: Connection where
  "newConnection =
     \<lparr>ref = ''unknown-ref'', release = ''unknown-release'', sha = ''unknown-sha'',
      tag = ''unknown-tag'', message = '''', body = '''', draft = False,
      prerelease = False, files = []\<rparr>"

definition setRelease :: "environment \<Rightarrow> Connection \<Rightarrow> Connection" where
  "setRelease env c =
     (let c = c\<lparr>release := getInput env ''release''\<rparr>;
          c = (if release c = [] then
                 (let c = c\<lparr>release := ref c\<rparr>;
                      c = c\<lparr>release := replaceFirst ''refs/'' [] (release c)\<rparr>;
                      c = c\<lparr>release := replaceFirst ''heads/'' [] (release c)\<rparr>;
                      c = c\<lparr>release := replaceFirst ''tags/'' [] (release c)\<rparr>
                  in c\<lparr>release := replaceSlashes (release c)\<rparr>)
               else c);
          c = c\<lparr>tag := getInput env ''tag''\<rparr>
      in if tag c = [] then c\<lparr>tag := release c\<rparr> else c)"

definition setDraft :: "environment \<Rightarrow> Connection \<Rightarrow> Connection" where
  "setDraft env c = c\<lparr>draft := isTruthyString (getInput env ''draft'')\<rparr>"

definition setPrerelease :: "environment \<Rightarrow> Connection \<Rightarrow> Connection" where
  "setPrerelease env c = c\<lparr>prerelease := \<not> isFalsyString (getInput env ''prerelease'')\<rparr>"

text \<open>
  One round of the loop of \<^verbatim>\<open>setFiles\<close>: the path pushed for a token, or the error the
  run ends with.
\<close>

definition findFile :: "environment \<Rightarrow> string \<Rightarrow> error + string" where
  "findFile env oneFile =
     (let tryPath = oneFile in
      if \<not> existsSync env tryPath \<or> \<not> isAbsolute env tryPath then
        (let tryPath = resolve env (GITHUB_WORKSPACE env) oneFile in
         if \<not> existsSync env tryPath then Inl (CouldNotFind oneFile)
         else if \<not> existsSync env tryPath then Inl (CouldNotFindFile tryPath)
         else Inr (replaceBackslashes tryPath))
      else if \<not> existsSync env tryPath then Inl (CouldNotFindFile tryPath)
      else Inr (replaceBackslashes tryPath))"

fun setFilesLoop :: "environment \<Rightarrow> string list \<Rightarrow> Connection \<Rightarrow> error + Connection" where
  "setFilesLoop env [] c = Inr c"
| "setFilesLoop env (oneFile # inputFiles) c =
     (case findFile env oneFile of
        Inl e \<Rightarrow> Inl e
      | Inr p \<Rightarrow> setFilesLoop env inputFiles (c\<lparr>files := files c @ [p]\<rparr>))"

definition setFiles :: "environment \<Rightarrow> Connection \<Rightarrow> error + Connection" where
  "setFiles env c =
     (case getInputRequired env ''files'' of
        Inl e \<Rightarrow> Inl e
      | Inr inputFileString \<Rightarrow> setFilesLoop env (splitFiles inputFileString) c)"

definition setMessage :: "environment \<Rightarrow> Connection \<Rightarrow> Connection" where
  "setMessage env c =
     (let message = getInput env ''message'' in
      if message = [] then c\<lparr>message := release c @ '' (automatically created)''\<rparr>
      else c)"

subsection \<open>The remote platform\<close>

text \<open>
  The state of the repository on the platform, as far as the action reads or changes it:
  the refs (full name and target), the annotated tag objects, the releases in the order
  in which they are listed, the assets, and the next identifier the platform hands out.
  \<open>hashObject\<close> is the platform's object hash, which names a new tag object;
  \<open>commitMessage\<close> gives the message of a commit the platform has.
  \<open>log\<close> records every call the client sent, in order; \<open>faults\<close> lists the positions
  in that sequence at which the call is rejected or lost (authentication, validation,
  rate limit, network), so that a statement about every remote state is also one about
  every pattern of failing calls. \<open>answerDelay\<close> is the timing the program does not
  fix: how many answers to later calls are handled before the answer to the
  \<^verbatim>\<open>getCommit\<close> call of \<^verbatim>\<open>setBody\<close>.
\<close>

record TagObject =
  object_tag :: string
  object_message :: string
  object_object :: string
  object_type :: string
  object_tagger :: Tagger

record RemoteTag =
  tag_name :: string
  tag_commit :: string

record RemoteRelease =
  rel_id :: int
  rel_name :: string
  rel_tag_name :: string
  rel_body :: string
  rel_draft :: bool
  rel_prerelease :: bool
  rel_upload_url :: url

record RemoteAsset =
  asset_id :: int
  asset_name :: string
  asset_release :: int

record remote =
  refs :: "(string \<times> string) list"
  tagObjects :: "TagObject list"
  releases :: "RemoteRelease list"
  assets :: "RemoteAsset list"
  nextId :: int
  hashObject :: "TagObject \<Rightarrow> string"
  commitMessage :: "string \<Rightarrow> string option"
  answerDelay :: nat
  faults :: "nat list"
  log :: "call list"

type_synonym 'a outcome = "(error \<times> remote) + ('a \<times> remote)"

text \<open>Sequencing: \<^verbatim>\<open>await\<close> a step and go on with its value unless it ended the run.\<close>

definition await :: "'a outcome \<Rightarrow> ('a \<Rightarrow> remote \<Rightarrow> 'b outcome) \<Rightarrow> 'b outcome" where
  "await m f = (case m of Inl e \<Rightarrow> Inl e | Inr (x, s) \<Rightarrow> f x s)"

text \<open>The remote state an outcome ends in, and whether the step came back.\<close>

definition final :: "'a outcome \<Rightarrow> remote" where
  "final m = (case m of Inl (e, s) \<Rightarrow> s | Inr (x, s) \<Rightarrow> s)"

definition returned :: "'a outcome \<Rightarrow> bool" where
  "returned m = (case m of Inl e \<Rightarrow> False | Inr r \<Rightarrow> True)"

definition send :: "call \<Rightarrow> remote \<Rightarrow> remote" where
  "send k s = s\<lparr>log := log s @ [k]\<rparr>"

definition transportFails :: "remote \<Rightarrow> bool" where
  "transportFails s = (length (log s) \<in> set (faults s))"

text \<open>
  One call: it is logged; it throws when the transport fails or when the platform
  refuses it (\<open>None\<close>), and otherwise returns the platform's answer. Every caller
  catches the exception with \<^verbatim>\<open>this.fail(error)\<close>, which ends the process.
\<close>

definition request :: "call \<Rightarrow> (remote \<Rightarrow> ('a \<times> remote) option) \<Rightarrow> remote \<Rightarrow> 'a outcome" where
  "request k effect s =
     (if transportFails s then Inl (RequestFailed k, send k s)
      else case effect (send k s) of
             None \<Rightarrow> Inl (RequestFailed k, send k s)
           | Some (x, s') \<Rightarrow> Inr (x, s'))"

text \<open>A tag is a ref under \<^verbatim>\<open>refs/tags/\<close>.\<close>

definition tagsOf :: "remote \<Rightarrow> RemoteTag list" where
  "tagsOf s =
     map (\<lambda>(r, t). \<lparr>tag_name = drop 10 r, tag_commit = t\<rparr>)
       (filter (\<lambda>(r, t). take 10 r = ''refs/tags/'') (refs s))"

definition repos_listTags :: "remote \<Rightarrow> RemoteTag list outcome" where
  "repos_listTags s = request ListTags (\<lambda>s. Some (tagsOf s, s)) s"

definition git_createTag ::
  "string \<Rightarrow> string \<Rightarrow> string \<Rightarrow> string \<Rightarrow> Tagger \<Rightarrow> remote \<Rightarrow> string outcome" where
  "git_createTag t m obj ty tagger s =
     request (CreateTag t m obj ty tagger)
       (\<lambda>s. let ob = \<lparr>object_tag = t, object_message = m, object_object = obj,
                      object_type = ty, object_tagger = tagger\<rparr>
            in Some (hashObject s ob, s\<lparr>tagObjects := tagObjects s @ [ob]\<rparr>)) s"

definition git_createRef :: "string \<Rightarrow> string \<Rightarrow> remote \<Rightarrow> unit outcome" where
  "git_createRef r target s =
     request (CreateRef r target)
       (\<lambda>s. if r \<in> fst ` set (refs s) then None
            else Some ((), s\<lparr>refs := refs s @ [(r, target)]\<rparr>)) s"

text \<open>\<^verbatim>\<open>updateRef\<close> names the ref without its \<^verbatim>\<open>refs/\<close> prefix.\<close>

definition git_updateRef :: "string \<Rightarrow> string \<Rightarrow> remote \<Rightarrow> unit outcome" where
  "git_updateRef r target s =
     request (UpdateRef r target)
       (\<lambda>s. if ''refs/'' @ r \<in> fst ` set (refs s)
            then Some ((), s\<lparr>refs := map (\<lambda>(n, t). if n = ''refs/'' @ r then (n, target) else (n, t)) (refs s)\<rparr>)
            else None) s"

definition repos_listReleases :: "remote \<Rightarrow> RemoteRelease list outcome" where
  "repos_listReleases s = request ListReleases (\<lambda>s. Some (releases s, s)) s"

text \<open>A new release gets a fresh identifier and is listed first.\<close>

definition repos_createRelease ::
  "string \<Rightarrow> string \<Rightarrow> string \<Rightarrow> bool \<Rightarrow> bool \<Rightarrow> remote \<Rightarrow> unit outcome" where
  "repos_createRelease t n b d p s =
     request (CreateRelease t n b d p)
       (\<lambda>s. Some ((), s\<lparr>releases :=
                          \<lparr>rel_id = nextId s, rel_name = n, rel_tag_name = t, rel_body = b,
                           rel_draft = d, rel_prerelease = p,
                           rel_upload_url = UploadUrl (nextId s)\<rparr> # releases s,
                        nextId := nextId s + 1\<rparr>)) s"

definition repos_updateRelease ::
  "int \<Rightarrow> string \<Rightarrow> string \<Rightarrow> bool \<Rightarrow> bool \<Rightarrow> remote \<Rightarrow> unit outcome" where
  "repos_updateRelease rid n b d p s =
     request (UpdateRelease rid n b d p)
       (\<lambda>s. if rid \<in> rel_id ` set (releases s)
            then Some ((), s\<lparr>releases :=
                   map (\<lambda>r. if rel_id r = rid
                            then r\<lparr>rel_name := n, rel_body := b, rel_draft := d, rel_prerelease := p\<rparr>
                            else r) (releases s)\<rparr>)
            else None) s"

definition repos_listReleaseAssets :: "int \<Rightarrow> remote \<Rightarrow> RemoteAsset list outcome" where
  "repos_listReleaseAssets rid s =
     request (ListReleaseAssets rid)
       (\<lambda>s. if rid \<in> rel_id ` set (releases s)
            then Some (filter (\<lambda>a. asset_release a = rid) (assets s), s)
            else None) s"

definition repos_deleteReleaseAsset :: "int \<Rightarrow> remote \<Rightarrow> unit outcome" where
  "repos_deleteReleaseAsset aid s =
     request (DeleteReleaseAsset aid)
       (\<lambda>s. if aid \<in> asset_id ` set (assets s)
            then Some ((), s\<lparr>assets := filter (\<lambda>a. asset_id a \<noteq> aid) (assets s)\<rparr>)
            else None) s"

text \<open>The \<^verbatim>\<open>url\<close> parameter replaces the route: the asset goes to the release it names.\<close>

definition repos_uploadReleaseAsset ::
  "int \<Rightarrow> url \<Rightarrow> string \<Rightarrow> nat \<Rightarrow> string \<Rightarrow> string \<Rightarrow> remote \<Rightarrow> unit outcome" where
  "repos_uploadReleaseAsset rid u contentType contentLength n d s =
     request (UploadReleaseAsset rid u contentType contentLength n d)
       (\<lambda>s. case u of UploadUrl target \<Rightarrow>
              if target \<in> rel_id ` set (releases s)
              then Some ((), s\<lparr>assets := assets s @
                                   [\<lparr>asset_id = nextId s, asset_name = n, asset_release = target\<rparr>],
                               nextId := nextId s + 1\<rparr>)
              else None) s"

definition git_getCommit :: "string \<Rightarrow> remote \<Rightarrow> string outcome" where
  "git_getCommit commit_sha s =
     request (GetCommit commit_sha)
       (\<lambda>s. case commitMessage s commit_sha of
              None \<Rightarrow> None
            | Some m \<Rightarrow> Some (m, s)) s"

subsection \<open>The methods of Connection\<close>

definition newTagger :: "environment \<Rightarrow> Tagger" where
  "newTagger env =
     \<lparr>tagger_name = ''update-existing-release github action'', tagger_email = ''none'',
      tagger_date = toISOString env\<rparr>"

definition createLightweightTag :: "Connection \<Rightarrow> Tagger \<Rightarrow> remote \<Rightarrow> string outcome" where
  "createLightweightTag c tagger s = git_createTag (tag c) (message c) (sha c) ''commit'' tagger s"

definition createRelease :: "Connection \<Rightarrow> remote \<Rightarrow> unit outcome" where
  "createRelease c s = repos_createRelease (tag c) (release c) (body c) (draft c) (prerelease c) s"

definition updateRelease :: "Connection \<Rightarrow> int \<Rightarrow> remote \<Rightarrow> unit outcome" where
  "updateRelease c rid s = repos_updateRelease rid (release c) (body c) (draft c) (prerelease c) s"

definition createTag :: "Connection \<Rightarrow> environment \<Rightarrow> remote \<Rightarrow> unit outcome" where
  "createTag c env s =
     (let tagger = newTagger env in
      await (createLightweightTag c tagger s) (\<lambda>tagObject s.
      git_createRef (''refs/tags/'' @ tag c) tagObject s))"

definition getReleases :: "Connection \<Rightarrow> remote \<Rightarrow> string list outcome" where
  "getReleases c s = await (repos_listReleases s) (\<lambda>data s. Inr (map rel_name data, s))"

definition doesReleaseExist :: "Connection \<Rightarrow> remote \<Rightarrow> bool outcome" where
  "doesReleaseExist c s = await (getReleases c s) (\<lambda>rs s. Inr (release c \<in> set rs, s))"

text \<open>
  The loop of \<^verbatim>\<open>getReleaseID\<close> returns the id of the first release with the name; when
  there is none, the method calls \<^verbatim>\<open>this.fail\<close> after the \<^verbatim>\<open>try\<close>.
\<close>

definition getReleaseID :: "Connection \<Rightarrow> remote \<Rightarrow> int outcome" where
  "getReleaseID c s =
     await (repos_listReleases s) (\<lambda>data s.
       case find (\<lambda>r. rel_name r = release c) data of
         Some r \<Rightarrow> Inr (rel_id r, s)
       | None \<Rightarrow> Inl (CouldNotFindId (release c), s))"

text \<open>\<open>None\<close> is the \<^verbatim>\<open>undefined\<close> of the bare \<^verbatim>\<open>return\<close>.\<close>

definition getReleaseAssets :: "Connection \<Rightarrow> remote \<Rightarrow> RemoteAsset list option outcome" where
  "getReleaseAssets c s =
     await (getReleaseID c s) (\<lambda>rid s.
       if rid < 0 then Inr (None, s)
       else await (repos_listReleaseAssets rid s) (\<lambda>data s. Inr (Some data, s)))"

text \<open>The inner loop over \<^verbatim>\<open>this.files\<close>, which sets \<^verbatim>\<open>shouldDelete\<close>.\<close>

fun matchFiles :: "environment \<Rightarrow> RemoteAsset \<Rightarrow> string list \<Rightarrow> bool \<Rightarrow> bool" where
  "matchFiles env asset [] shouldDelete = shouldDelete"
| "matchFiles env asset (oneFile # fs) shouldDelete =
     matchFiles env asset fs
       (if asset_name asset = basename env oneFile then True else shouldDelete)"

definition shouldDelete :: "Connection \<Rightarrow> environment \<Rightarrow> bool \<Rightarrow> RemoteAsset \<Rightarrow> bool" where
  "shouldDelete c env shouldDeleteAllExisting asset =
     (if \<not> shouldDeleteAllExisting
      then matchFiles env asset (files c) shouldDeleteAllExisting
      else shouldDeleteAllExisting)"

fun deleteLoop ::
  "Connection \<Rightarrow> environment \<Rightarrow> bool \<Rightarrow> RemoteAsset list \<Rightarrow> bool \<Rightarrow> remote \<Rightarrow> bool outcome" where
  "deleteLoop c env shouldDeleteAllExisting [] result s = Inr (result, s)"
| "deleteLoop c env shouldDeleteAllExisting (asset # as) result s =
     (if shouldDelete c env shouldDeleteAllExisting asset
      then await (repos_deleteReleaseAsset (asset_id asset) s) (\<lambda>_ s.
             deleteLoop c env shouldDeleteAllExisting as True s)
      else deleteLoop c env shouldDeleteAllExisting as result s)"

text \<open>Iterating over \<^verbatim>\<open>undefined\<close> throws inside the \<^verbatim>\<open>try\<close>, which ends the run.\<close>

definition deleteAssetsIfTheyExist :: "Connection \<Rightarrow> environment \<Rightarrow> bool \<Rightarrow> remote \<Rightarrow> bool outcome" where
  "deleteAssetsIfTheyExist c env shouldDeleteAllExisting s =
     await (getReleaseAssets c s) (\<lambda>assets s.
       case assets of
         None \<Rightarrow> Inl (AssetsNotIterable, s)
       | Some as \<Rightarrow> deleteLoop c env shouldDeleteAllExisting as False s)"

definition getRepos :: "Connection \<Rightarrow> remote \<Rightarrow> RemoteRelease list outcome" where
  "getRepos c s = repos_listReleases s"

definition getReleaseUploadURL :: "Connection \<Rightarrow> remote \<Rightarrow> url outcome" where
  "getReleaseUploadURL c s =
     await (getRepos c s) (\<lambda>repos s.
       case find (\<lambda>repo. rel_name repo = release c) repos of
         Some repo \<Rightarrow> Inr (rel_upload_url repo, s)
       | None \<Rightarrow> Inl (CouldNotFindUploadUrl (release c), s))"

definition getTag :: "Connection \<Rightarrow> remote \<Rightarrow> RemoteTag option outcome" where
  "getTag c s =
     await (repos_listTags s) (\<lambda>tags s. Inr (find (\<lambda>t. tag_name t = tag c) tags, s))"

definition updateTag :: "Connection \<Rightarrow> environment \<Rightarrow> remote \<Rightarrow> unit outcome" where
  "updateTag c env s = git_updateRef (''tags/'' @ tag c) (GITHUB_SHA env) s"

definition defaultAssetContentType :: string where
  "defaultAssetContentType = ''application/octet-stream''"

fun uploadLoop :: "Connection \<Rightarrow> environment \<Rightarrow> int \<Rightarrow> string list \<Rightarrow> remote \<Rightarrow> unit outcome" where
  "uploadLoop c env rid [] s = Inr ((), s)"
| "uploadLoop c env rid (oneFile # fs) s =
     (let contentType = (case lookup env oneFile of None \<Rightarrow> defaultAssetContentType | Some t \<Rightarrow> t) in
      case statSync env oneFile of
        None \<Rightarrow> Inl (FileSystemError oneFile, s)
      | Some contentLength \<Rightarrow>
          await (getReleaseUploadURL c s) (\<lambda>u s.
            case readFileSync env oneFile of
              None \<Rightarrow> Inl (FileSystemError oneFile, s)
            | Some d \<Rightarrow>
                await (repos_uploadReleaseAsset rid u contentType contentLength
                         (basename env oneFile) d s) (\<lambda>_ s.
                uploadLoop c env rid fs s)))"

definition uploadAssets :: "Connection \<Rightarrow> environment \<Rightarrow> int \<Rightarrow> remote \<Rightarrow> unit outcome" where
  "uploadAssets c env rid s = uploadLoop c env rid (files c) s"

subsection \<open>run and the program\<close>

text \<open>
  \<^verbatim>\<open>run\<close> in three parts, in the order of its statements: the tag (the first \<^verbatim>\<open>if\<close>),
  the release up to \<^verbatim>\<open>getReleaseID\<close>, and the body of \<^verbatim>\<open>if (id >= 0)\<close>.
\<close>

definition ensureTag :: "Connection \<Rightarrow> environment \<Rightarrow> remote \<Rightarrow> RemoteTag option outcome" where
  "ensureTag c env s =
     await (getTag c s) (\<lambda>t s.
       if t = None
       then await (createTag c env s) (\<lambda>_ s. getTag c s)
       else Inr (t, s))"

definition ensureRelease :: "Connection \<Rightarrow> remote \<Rightarrow> int outcome" where
  "ensureRelease c s =
     await (doesReleaseExist c s) (\<lambda>exists s.
     await (if \<not> exists then createRelease c s else Inr ((), s)) (\<lambda>_ s.
     getReleaseID c s))"

definition publish :: "Connection \<Rightarrow> environment \<Rightarrow> int \<Rightarrow> remote \<Rightarrow> unit outcome" where
  "publish c env rid s =
     await (updateRelease c rid s) (\<lambda>_ s.
     await (deleteAssetsIfTheyExist c env (isTruthyString (getInput env ''replace'')) s) (\<lambda>_ s.
     await (uploadAssets c env rid s) (\<lambda>_ s.
     if \<not> isFalsyString (getInput env ''updateTag'') then updateTag c env s
     else Inr ((), s))))"

definition run :: "Connection \<Rightarrow> environment \<Rightarrow> remote \<Rightarrow> unit outcome" where
  "run c env s =
     await (ensureTag c env s) (\<lambda>t s.
     await (ensureRelease c s) (\<lambda>rid s.
     if 0 \<le> rid then publish c env rid s else Inr ((), s)))"

subsection \<open>setBody, the constructor and the program\<close>

text \<open>
  \<^verbatim>\<open>setBody\<close> is an \<^verbatim>\<open>async\<close> method that the constructor calls and does not await. The
  part before its \<^verbatim>\<open>await\<close> runs inside the constructor: it stores the input and, when
  the input is empty, starts the \<^verbatim>\<open>getCommit\<close> call. The rest of the method is left
  suspended: the call it waits for, and what it does with the answer (the commit
  message goes into \<^verbatim>\<open>this.body\<close>; a rejected call goes to \<^verbatim>\<open>this.fail\<close>).
\<close>

type_synonym suspended =
  "(remote \<Rightarrow> string outcome) \<times> (error + string \<Rightarrow> Connection \<Rightarrow> error + Connection)"

definition setBody :: "environment \<Rightarrow> Connection \<Rightarrow> Connection \<times> suspended option" where
  "setBody env c =
     (let c = c\<lparr>body := getInput env ''body''\<rparr> in
      if body c \<noteq> [] then (c, None)
      else (c, Some (git_getCommit (sha c),
                     \<lambda>commitObject c.
                        case commitObject of
                          Inl e \<Rightarrow> Inl e
                        | Inr m \<Rightarrow> Inr (c\<lparr>body := m\<rparr>))))"

definition constructor :: "environment \<Rightarrow> error + Connection \<times> suspended option" where
  "constructor env =
     (case getInputRequired env ''token'' of
        Inl e \<Rightarrow> Inl e
      | Inr token \<Rightarrow>
        (let c = newConnection\<lparr>ref := GITHUB_REF env, sha := GITHUB_SHA env\<rparr>;
             c = setRelease env c;
             c = setDraft env c;
             c = setPrerelease env c
         in case setFiles env c of
              Inl e \<Rightarrow> Inl e
            | Inr c \<Rightarrow> Inr (setBody env (setMessage env c))))"

text \<open>
  While the rest of \<^verbatim>\<open>setBody\<close> is suspended, \<^verbatim>\<open>run\<close> works on an object whose \<^verbatim>\<open>body\<close>
  field can change under it, and the process can be ended by \<^verbatim>\<open>setBody\<close>'s own
  \<^verbatim>\<open>this.fail\<close>. The state of the process is then the object together with what is
  suspended: the number of answers still to be handled first, the answer to
  \<^verbatim>\<open>getCommit\<close>, and the rest of the method.
\<close>

record process =
  connection :: Connection
  pending :: "(nat \<times> (error + string) \<times> (error + string \<Rightarrow> Connection \<Rightarrow> error + Connection)) option"

text \<open>
  One turn of the event loop while a call of \<^verbatim>\<open>run\<close> is in flight: either the answer to
  \<^verbatim>\<open>getCommit\<close> is not due yet, or the rest of \<^verbatim>\<open>setBody\<close> runs now.
\<close>

definition resume :: "process \<Rightarrow> error + process" where
  "resume p =
     (case pending p of
        None \<Rightarrow> Inr p
      | Some (n, commitObject, rest) \<Rightarrow>
          (case n of
             Suc m \<Rightarrow> Inr (p\<lparr>pending := Some (m, commitObject, rest)\<rparr>)
           | 0 \<Rightarrow>
               (case rest commitObject (connection p) of
                  Inl e \<Rightarrow> Inl e
                | Inr c \<Rightarrow> Inr \<lparr>connection = c, pending = None\<rparr>)))"

text \<open>
  A call of \<^verbatim>\<open>run\<close> made in that state: the platform has carried it out; the event loop
  takes its turn; then the call's own answer is handled.
\<close>

definition answered :: "process \<Rightarrow> 'a outcome \<Rightarrow> ('a \<times> process) outcome" where
  "answered p m =
     (case resume p of
        Inl e \<Rightarrow> Inl (e, final m)
      | Inr p' \<Rightarrow> (case m of Inl (e, s) \<Rightarrow> Inl (e, s) | Inr (x, s) \<Rightarrow> Inr ((x, p'), s)))"

text \<open>
  The methods again, as they run in that state: the same statements, with \<^verbatim>\<open>this\<close> read
  from the process at the moment of each use.
\<close>

definition createLightweightTag' :: "process \<Rightarrow> Tagger \<Rightarrow> remote \<Rightarrow> (string \<times> process) outcome" where
  "createLightweightTag' p tagger s =
     answered p (git_createTag (tag (connection p)) (message (connection p)) (sha (connection p))
                   ''commit'' tagger s)"

definition createRelease' :: "process \<Rightarrow> remote \<Rightarrow> (unit \<times> process) outcome" where
  "createRelease' p s =
     answered p (repos_createRelease (tag (connection p)) (release (connection p))
                   (body (connection p)) (draft (connection p)) (prerelease (connection p)) s)"

definition updateRelease' :: "process \<Rightarrow> int \<Rightarrow> remote \<Rightarrow> (unit \<times> process) outcome" where
  "updateRelease' p rid s =
     answered p (repos_updateRelease rid (release (connection p)) (body (connection p))
                   (draft (connection p)) (prerelease (connection p)) s)"

definition createTag' :: "process \<Rightarrow> environment \<Rightarrow> remote \<Rightarrow> (unit \<times> process) outcome" where
  "createTag' p env s =
     (let tagger = newTagger env in
      await (createLightweightTag' p tagger s) (\<lambda>(tagObject, p) s.
      answered p (git_createRef (''refs/tags/'' @ tag (connection p)) tagObject s)))"

definition getReleases' :: "process \<Rightarrow> remote \<Rightarrow> (string list \<times> process) outcome" where
  "getReleases' p s =
     await (answered p (repos_listReleases s)) (\<lambda>(data, p) s. Inr ((map rel_name data, p), s))"

definition doesReleaseExist' :: "process \<Rightarrow> remote \<Rightarrow> (bool \<times> process) outcome" where
  "doesReleaseExist' p s =
     await (getReleases' p s) (\<lambda>(rs, p) s. Inr ((release (connection p) \<in> set rs, p), s))"

definition getReleaseID' :: "process \<Rightarrow> remote \<Rightarrow> (int \<times> process) outcome" where
  "getReleaseID' p s =
     await (answered p (repos_listReleases s)) (\<lambda>(data, p) s.
       case find (\<lambda>r. rel_name r = release (connection p)) data of
         Some r \<Rightarrow> Inr ((rel_id r, p), s)
       | None \<Rightarrow> Inl (CouldNotFindId (release (connection p)), s))"

definition getReleaseAssets' :: "process \<Rightarrow> remote \<Rightarrow> (RemoteAsset list option \<times> process) outcome" where
  "getReleaseAssets' p s =
     await (getReleaseID' p s) (\<lambda>(rid, p) s.
       if rid < 0 then Inr ((None, p), s)
       else await (answered p (repos_listReleaseAssets rid s)) (\<lambda>(data, p) s.
              Inr ((Some data, p), s)))"

fun deleteLoop' ::
  "process \<Rightarrow> environment \<Rightarrow> bool \<Rightarrow> RemoteAsset list \<Rightarrow> bool \<Rightarrow> remote \<Rightarrow> (bool \<times> process) outcome" where
  "deleteLoop' p env shouldDeleteAllExisting [] result s = Inr ((result, p), s)"
| "deleteLoop' p env shouldDeleteAllExisting (asset # as) result s =
     (if shouldDelete (connection p) env shouldDeleteAllExisting asset
      then await (answered p (repos_deleteReleaseAsset (asset_id asset) s)) (\<lambda>(u, p) s.
             deleteLoop' p env shouldDeleteAllExisting as True s)
      else deleteLoop' p env shouldDeleteAllExisting as result s)"

definition deleteAssetsIfTheyExist' ::
  "process \<Rightarrow> environment \<Rightarrow> bool \<Rightarrow> remote \<Rightarrow> (bool \<times> process) outcome" where
  "deleteAssetsIfTheyExist' p env shouldDeleteAllExisting s =
     await (getReleaseAssets' p s) (\<lambda>(assets, p) s.
       case assets of
         None \<Rightarrow> Inl (AssetsNotIterable, s)
       | Some as \<Rightarrow> deleteLoop' p env shouldDeleteAllExisting as False s)"

definition getRepos' :: "process \<Rightarrow> remote \<Rightarrow> (RemoteRelease list \<times> process) outcome" where
  "getRepos' p s = answered p (repos_listReleases s)"

definition getReleaseUploadURL' :: "process \<Rightarrow> remote \<Rightarrow> (url \<times> process) outcome" where
  "getReleaseUploadURL' p s =
     await (getRepos' p s) (\<lambda>(repos, p) s.
       case find (\<lambda>repo. rel_name repo = release (connection p)) repos of
         Some repo \<Rightarrow> Inr ((rel_upload_url repo, p), s)
       | None \<Rightarrow> Inl (CouldNotFindUploadUrl (release (connection p)), s))"

definition getTag' :: "process \<Rightarrow> remote \<Rightarrow> (RemoteTag option \<times> process) outcome" where
  "getTag' p s =
     await (answered p (repos_listTags s)) (\<lambda>(tags, p) s.
       Inr ((find (\<lambda>t. tag_name t = tag (connection p)) tags, p), s))"

definition updateTag' :: "process \<Rightarrow> environment \<Rightarrow> remote \<Rightarrow> (unit \<times> process) outcome" where
  "updateTag' p env s =
     answered p (git_updateRef (''tags/'' @ tag (connection p)) (GITHUB_SHA env) s)"

fun uploadLoop' ::
  "process \<Rightarrow> environment \<Rightarrow> int \<Rightarrow> string list \<Rightarrow> remote \<Rightarrow> (unit \<times> process) outcome" where
  "uploadLoop' p env rid [] s = Inr (((), p), s)"
| "uploadLoop' p env rid (oneFile # fs) s =
     (let contentType = (case lookup env oneFile of None \<Rightarrow> defaultAssetContentType | Some t \<Rightarrow> t) in
      case statSync env oneFile of
        None \<Rightarrow> Inl (FileSystemError oneFile, s)
      | Some contentLength \<Rightarrow>
          await (getReleaseUploadURL' p s) (\<lambda>(u, p) s.
            case readFileSync env oneFile of
              None \<Rightarrow> Inl (FileSystemError oneFile, s)
            | Some d \<Rightarrow>
                await (answered p (repos_uploadReleaseAsset rid u contentType contentLength
                                     (basename env oneFile) d s)) (\<lambda>(v, p) s.
                uploadLoop' p env rid fs s)))"

definition uploadAssets' :: "process \<Rightarrow> environment \<Rightarrow> int \<Rightarrow> remote \<Rightarrow> (unit \<times> process) outcome" where
  "uploadAssets' p env rid s = uploadLoop' p env rid (files (connection p)) s"

definition ensureTag' :: "process \<Rightarrow> environment \<Rightarrow> remote \<Rightarrow> (RemoteTag option \<times> process) outcome" where
  "ensureTag' p env s =
     await (getTag' p s) (\<lambda>(t, p) s.
       if t = None
       then await (createTag' p env s) (\<lambda>(u, p) s. getTag' p s)
       else Inr ((t, p), s))"

definition ensureRelease' :: "process \<Rightarrow> remote \<Rightarrow> (int \<times> process) outcome" where
  "ensureRelease' p s =
     await (doesReleaseExist' p s) (\<lambda>(exists, p) s.
     await (if \<not> exists then createRelease' p s else Inr (((), p), s)) (\<lambda>(u, p) s.
     getReleaseID' p s))"

definition publish' :: "process \<Rightarrow> environment \<Rightarrow> int \<Rightarrow> remote \<Rightarrow> (unit \<times> process) outcome" where
  "publish' p env rid s =
     await (updateRelease' p rid s) (\<lambda>(u, p) s.
     await (deleteAssetsIfTheyExist' p env (isTruthyString (getInput env ''replace'')) s) (\<lambda>(b, p) s.
     await (uploadAssets' p env rid s) (\<lambda>(u, p) s.
     if \<not> isFalsyString (getInput env ''updateTag'') then updateTag' p env s
     else Inr (((), p), s))))"

definition run' :: "process \<Rightarrow> environment \<Rightarrow> remote \<Rightarrow> (unit \<times> process) outcome" where
  "run' p env s =
     await (ensureTag' p env s) (\<lambda>(t, p) s.
     await (ensureRelease' p s) (\<lambda>(rid, p) s.
     if 0 \<le> rid then publish' p env rid s else Inr (((), p), s)))"

text \<open>
  The two statements at the end of the file: \<^verbatim>\<open>new Connection()\<close>, then \<^verbatim>\<open>run()\<close>. When
  \<^verbatim>\<open>setBody\<close> left nothing suspended, that is \<^verbatim>\<open>run\<close> on the object as constructed.
  Otherwise the \<^verbatim>\<open>getCommit\<close> call goes out first and \<^verbatim>\<open>run\<close> works while its answer is
  outstanding; when \<^verbatim>\<open>run\<close> is through before the answer was handled, the rest of
  \<^verbatim>\<open>setBody\<close> runs last and can still end the process with an error.
\<close>

definition main :: "environment \<Rightarrow> remote \<Rightarrow> unit outcome" where
  "main env s =
     (case constructor env of
        Inl e \<Rightarrow> Inl (e, s)
      | Inr (c, None) \<Rightarrow> run c env s
      | Inr (c, Some (getCommit, rest)) \<Rightarrow>
          (let sent = getCommit s;
               commitObject = (case sent of Inl (e, s') \<Rightarrow> Inl e | Inr (m, s') \<Rightarrow> Inr m);
               p = \<lparr>connection = c, pending = Some (answerDelay s, commitObject, rest)\<rparr>
           in await (run' p env (final sent)) (\<lambda>(u, p) s.
                case pending p of
                  None \<Rightarrow> Inr ((), s)
                | Some (n, commitObject, rest) \<Rightarrow>
                    (case rest commitObject (connection p) of
                       Inl e \<Rightarrow> Inl (e, s)
                     | Inr c \<Rightarrow> Inr ((), s)))))"

subsection \<open>The specification's wording of the name derivation\<close>

text \<open>
  The specification derives the release name from the ref by removing a leading
  \<^verbatim>\<open>refs/\<close>, then a leading \<^verbatim>\<open>heads/\<close> or \<^verbatim>\<open>tags/\<close>, then replacing every remaining
  slash by a dash. This definition follows those words, to be compared with
  \<open>setRelease\<close>.
\<close>

definition stripLeading :: "string \<Rightarrow> string \<Rightarrow> string" where
  "stripLeading pat s = (if take (length pat) s = pat then drop (length pat) s else s)"

definition specReleaseName :: "string \<Rightarrow> string" where
  "specReleaseName r =
     (let r1 = stripLeading ''refs/'' r;
          r2 = (if take 6 r1 = ''heads/'' then drop 6 r1 else stripLeading ''tags/'' r1)
      in replaceSlashes r2)"

subsection \<open>Invariants of the platform and views of a run\<close>

text \<open>The platform's identifiers are not negative, are unique, and \<open>nextId\<close> is unused.\<close>

definition wellFormed :: "remote \<Rightarrow> bool" where
  "wellFormed s =
     (0 \<le> nextId s \<and>
      list_all (\<lambda>r. 0 \<le> rel_id r \<and> rel_id r < nextId s) (releases s) \<and>
      distinct (map rel_id (releases s)))"

text \<open>The release \<^verbatim>\<open>createRelease\<close> asks for, and what \<^verbatim>\<open>updateRelease\<close> makes of a release.\<close>

definition createdRelease :: "Connection \<Rightarrow> int \<Rightarrow> RemoteRelease" where
  "createdRelease c i =
     \<lparr>rel_id = i, rel_name = release c, rel_tag_name = tag c, rel_body = body c,
      rel_draft = draft c, rel_prerelease = prerelease c, rel_upload_url = UploadUrl i\<rparr>"

definition updatedRelease :: "Connection \<Rightarrow> int \<Rightarrow> RemoteRelease \<Rightarrow> RemoteRelease" where
  "updatedRelease c rid r =
     (if rel_id r = rid
      then r\<lparr>rel_name := release c, rel_body := body c, rel_draft := draft c,
             rel_prerelease := prerelease c\<rparr>
      else r)"


fun isCreateRelease :: "call \<Rightarrow> bool" where
  "isCreateRelease (CreateRelease t n b d p) = True"
| "isCreateRelease k = False"

text \<open>The releases with a given name.\<close>

definition named :: "string \<Rightarrow> remote \<Rightarrow> RemoteRelease list" where
  "named n s = filter (\<lambda>r. rel_name r = n) (releases s)"

text \<open>The assets the deletion phase marks, in the order in which they are listed.\<close>

definition marked :: "Connection \<Rightarrow> environment \<Rightarrow> bool \<Rightarrow> RemoteAsset list \<Rightarrow> RemoteAsset list" where
  "marked c env shouldDeleteAllExisting as = filter (shouldDelete c env shouldDeleteAllExisting) as"

text \<open>The tag object \<^verbatim>\<open>createTag\<close> asks for, and whether the next \<open>n\<close> calls all get through.\<close>

definition tagObjectOf :: "Connection \<Rightarrow> environment \<Rightarrow> TagObject" where
  "tagObjectOf c env =
     \<lparr>object_tag = tag c, object_message = message c, object_object = sha c,
      object_type = ''commit'', object_tagger = newTagger env\<rparr>"

definition noFaultIn :: "nat \<Rightarrow> remote \<Rightarrow> bool" where
  "noFaultIn n s = list_all (\<lambda>i. length (log s) + i \<notin> set (faults s)) [0..<n]"

text \<open>
  Two relations between the remote state before and after a step: the step only added
  calls satisfying \<open>P\<close> to the log; the step left the releases alone and took no
  identifier back.
\<close>

definition emits :: "(call \<Rightarrow> bool) \<Rightarrow> remote \<Rightarrow> remote \<Rightarrow> bool" where
  "emits P s s' = (\<exists>ks. log s' = log s @ ks \<and> list_all P ks)"

definition keepsReleases :: "remote \<Rightarrow> remote \<Rightarrow> bool" where
  "keepsReleases s s' = (releases s' = releases s \<and> nextId s \<le> nextId s')"

subsection \<open>Example data\<close>

text \<open>
  A POSIX reading of the \<^verbatim>\<open>path\<close> functions for the examples (\<open>resolve\<close> without the
  normalisation of dot segments), a workspace with two files, and a repository with one
  branch and no tag or release.
\<close>

definition posixIsAbsolute :: "string \<Rightarrow> bool" where
  "posixIsAbsolute p = (case p of [] \<Rightarrow> False | c # cs \<Rightarrow> c = CHR ''/'')"

definition posixResolve :: "string \<Rightarrow> string \<Rightarrow> string" where
  "posixResolve from to = (if posixIsAbsolute to then to else from @ ''/'' @ to)"

definition posixBasename :: "string \<Rightarrow> string" where
  "posixBasename p =
     rev (takeWhile (\<lambda>c. c \<noteq> CHR ''/'') (dropWhile (\<lambda>c. c = CHR ''/'') (rev p)))"

definition exampleInputs :: "string \<Rightarrow> string" where
  "exampleInputs n =
     (if n = ''token'' then ''secret''
      else if n = ''files'' then ''dist/a.zip''
      else if n = ''body'' then ''notes''
      else [])"

definition exampleEnv :: environment where
  "exampleEnv =
     \<lparr>getInput = exampleInputs,
      supplied = (\<lambda>n. exampleInputs n \<noteq> []),
      GITHUB_REF = ''refs/heads/feature/x'',
      GITHUB_SHA = ''c0ffee'',
      GITHUB_WORKSPACE = ''/work'',
      existsSync = (\<lambda>p. p = ''/work/dist/a.zip'' \<or> p = ''/work/dist/b.zip''),
      statSync = (\<lambda>p. if p = ''/work/dist/a.zip'' \<or> p = ''/work/dist/b.zip'' then Some 2 else None),
      readFileSync = (\<lambda>p. if p = ''/work/dist/a.zip'' \<or> p = ''/work/dist/b.zip'' then Some ''PK'' else None),
      isAbsolute = posixIsAbsolute,
      resolve = posixResolve,
      basename = posixBasename,
      lookup = (\<lambda>p. None),
      toISOString = ''2020-01-01T00:00:00.000Z''\<rparr>"

definition exampleConnection :: Connection where
  "exampleConnection =
     \<lparr>ref = ''refs/heads/feature/x'', release = ''feature-x'', sha = ''c0ffee'',
      tag = ''feature-x'', message = ''feature-x (automatically created)'',
      body = ''notes'', draft = False, prerelease = True,
      files = [''/work/dist/a.zip'']\<rparr>"

definition exampleRemote :: remote where
  "exampleRemote =
     \<lparr>refs = [(''refs/heads/feature/x'', ''c0ffee'')],
      tagObjects = [], releases = [], assets = [], nextId = 1,
      hashObject = (\<lambda>ob. ''tagobject-'' @ object_tag ob),
      commitMessage = (\<lambda>commit_sha. if commit_sha = ''c0ffee'' then Some ''first commit'' else None),
      answerDelay = 0,
      faults = [], log = []\<rparr>"

text \<open>The repository after a first run, with a second asset on the release.\<close>

definition publishedRemote :: remote where
  "publishedRemote =
     exampleRemote
       \<lparr>refs := [(''refs/heads/feature/x'', ''c0ffee''), (''refs/tags/feature-x'', ''c0ffee'')],
        releases := [\<lparr>rel_id = 1, rel_name = ''feature-x'', rel_tag_name = ''feature-x'',
                      rel_body = ''notes'', rel_draft = False, rel_prerelease = True,
                      rel_upload_url = UploadUrl 1\<rparr>],
        assets := [\<lparr>asset_id = 10, asset_name = ''a.zip'', asset_release = 1\<rparr>,
                   \<lparr>asset_id = 11, asset_name = ''b.zip'', asset_release = 1\<rparr>],
        nextId := 12\<rparr>"

section \<open>Evaluation sets and the constructor\<close>

lemmas example_defs =
  exampleEnv_def exampleInputs_def exampleConnection_def exampleRemote_def publishedRemote_def
  posixIsAbsolute_def posixResolve_def posixBasename_def

lemmas constructor_defs =
  constructor_def getInputRequired_def newConnection_def setRelease_def setDraft_def setPrerelease_def
  setFiles_def setMessage_def setBody_def splitFiles_def isDelimiter_def findFile_def
  replaceSlashes_def replaceBackslashes_def isTruthyString_def isFalsyString_def

lemma constructor_example: "constructor exampleEnv = Inr (exampleConnection, None)"
  by (simp add: constructor_defs example_defs)

text \<open>The loop of \<^verbatim>\<open>setFiles\<close> changes no field but \<open>files\<close>.\<close>

lemma setFilesLoop_fields:
  "setFilesLoop env ts c = Inr c' \<Longrightarrow> c' = c\<lparr>files := files c'\<rparr>"
proof (induction ts arbitrary: c)
  case Nil
  then show ?case by simp
next
  case (Cons t ts)
  from Cons.prems obtain p where p: "findFile env t = Inr p"
    and rest: "setFilesLoop env ts (c\<lparr>files := files c @ [p]\<rparr>) = Inr c'"
    by (auto split: sum.splits)
  from Cons.IH [OF rest] show ?case
    by (cases c, cases c') simp
qed

lemma setFiles_fields:
  "setFiles env c = Inr c' \<Longrightarrow> c' = c\<lparr>files := files c'\<rparr>"
  by (auto simp: setFiles_def split: sum.splits dest: setFilesLoop_fields)

text \<open>The fields of a constructed Connection, in terms of the inputs.\<close>

lemma fst_setBody: "fst (setBody env c) = c\<lparr>body := getInput env ''body''\<rparr>"
  by (simp add: setBody_def Let_def)

lemma constructor_fields:
  assumes "constructor env = Inr (c, p)"
  shows "draft c = isTruthyString (getInput env ''draft'')"
    and "prerelease c = (\<not> isFalsyString (getInput env ''prerelease''))"
    and "message c = (if getInput env ''message'' = [] then release c @ '' (automatically created)'' else [])"
    and "sha c = GITHUB_SHA env"
    and "release c = release (setRelease env (newConnection\<lparr>ref := GITHUB_REF env\<rparr>))"
    and "tag c = tag (setRelease env (newConnection\<lparr>ref := GITHUB_REF env\<rparr>))"
proof -
  let ?c0 = "setPrerelease env (setDraft env (setRelease env
               (newConnection\<lparr>ref := GITHUB_REF env, sha := GITHUB_SHA env\<rparr>)))"
  from assms obtain c1 where c1: "setFiles env ?c0 = Inr c1"
    and cp: "(c, p) = setBody env (setMessage env c1)"
    by (auto simp: constructor_def Let_def split: sum.splits)
  from cp have "c = fst (setBody env (setMessage env c1))" by (metis fst_conv)
  then have c: "c = (setMessage env c1)\<lparr>body := getInput env ''body''\<rparr>"
    by (simp add: fst_setBody)
  from setFiles_fields [OF c1] have eq: "c1 = ?c0\<lparr>files := files c1\<rparr>" .
  have d: "draft c1 = draft ?c0" "prerelease c1 = prerelease ?c0" "message c1 = message ?c0"
    "sha c1 = sha ?c0" "release c1 = release ?c0" "tag c1 = tag ?c0"
    by (subst eq, simp)+
  note setters = setMessage_def setPrerelease_def setDraft_def setRelease_def
    newConnection_def Let_def
  show "draft c = isTruthyString (getInput env ''draft'')"
    using d by (simp add: c setters)
  show "prerelease c = (\<not> isFalsyString (getInput env ''prerelease''))"
    using d by (simp add: c setters)
  show "message c = (if getInput env ''message'' = [] then release c @ '' (automatically created)'' else [])"
    using d by (simp add: c setters)
  show "sha c = GITHUB_SHA env"
    using d by (simp add: c setters)
  show "release c = release (setRelease env (newConnection\<lparr>ref := GITHUB_REF env\<rparr>))"
    using d by (simp add: c setters)
  show "tag c = tag (setRelease env (newConnection\<lparr>ref := GITHUB_REF env\<rparr>))"
    using d by (simp add: c setters)
qed

section \<open>The flag inputs\<close>

text \<open>
  Claim C9. The two flags are parsed differently. The prerelease flag of a constructed
  Connection is true unless the input is exactly \<^verbatim>\<open>false\<close> or \<^verbatim>\<open>no\<close>, so an empty
  input gives a prerelease; the draft flag is true only when the input is exactly
  \<^verbatim>\<open>true\<close> or \<^verbatim>\<open>yes\<close>, so an empty input gives no draft.
\<close>

theorem flags_parsed_asymmetrically:
  "constructor env = Inr (c, p) \<Longrightarrow>
     prerelease c = (getInput env ''prerelease'' \<noteq> ''false'' \<and> getInput env ''prerelease'' \<noteq> ''no'') \<and>
     draft c = (getInput env ''draft'' = ''true'' \<or> getInput env ''draft'' = ''yes'')"
  by (simp add: constructor_fields isTruthyString_def isFalsyString_def)

theorem flags_parsed_asymmetrically_witness:
  "constructor exampleEnv = Inr (exampleConnection, None) \<and>
   getInput exampleEnv ''prerelease'' = [] \<and> prerelease exampleConnection \<and>
   getInput exampleEnv ''draft'' = [] \<and> \<not> draft exampleConnection"
  using flags_parsed_asymmetrically [OF constructor_example]
  by (simp add: constructor_example) (simp add: example_defs)

section \<open>Outcomes and the log\<close>

lemma final_simps [simp]:
  "final (Inl (e, s)) = s" "final (Inr (x, s)) = s"
  by (simp_all add: final_def)

lemma returned_simps [simp]:
  "returned (Inl e) = False" "returned (Inr r) = True"
  by (simp_all add: returned_def)

lemma await_simps [simp]:
  "await (Inl e) f = Inl e" "await (Inr (x, s)) f = f x s"
  by (simp_all add: await_def)

lemma log_send [simp]: "log (send k s) = log s @ [k]"
  by (simp add: send_def)

section \<open>The message of a created tag\<close>

lemma log_final_createLightweightTag:
  "log (final (createLightweightTag c tagger s)) =
     log s @ [CreateTag (tag c) (message c) (sha c) ''commit'' tagger]"
  by (simp add: createLightweightTag_def git_createTag_def request_def Let_def send_def)

text \<open>
  Claim C5. The message sent with the tag object is the default text
  \<^verbatim>\<open><releaseName> (automatically created)\<close> when the message input is empty. When a
  message is supplied, \<^verbatim>\<open>setMessage\<close> reads it but never stores it, so the field keeps
  its initial empty value and the tag object is created with an empty message: the
  supplied message is not used.
\<close>

theorem supplied_message_is_dropped:
  "constructor env = Inr (c, p) \<Longrightarrow>
     log (final (createLightweightTag c tagger s)) =
       log s @ [CreateTag (tag c)
                  (if getInput env ''message'' = [] then release c @ '' (automatically created)''
                   else [])
                  (sha c) ''commit'' tagger]"
  by (simp add: log_final_createLightweightTag constructor_fields)

theorem supplied_message_is_dropped_witness:
  "constructor (exampleEnv\<lparr>getInput := (exampleInputs(''message'' := ''first build''))\<rparr>) =
     Inr (exampleConnection\<lparr>message := []\<rparr>, None) \<and>
   log (final (createLightweightTag (exampleConnection\<lparr>message := []\<rparr>) (newTagger exampleEnv) exampleRemote)) =
     [CreateTag ''feature-x'' [] ''c0ffee'' ''commit'' (newTagger exampleEnv)]"
proof -
  have c: "constructor (exampleEnv\<lparr>getInput := (exampleInputs(''message'' := ''first build''))\<rparr>) =
     Inr (exampleConnection\<lparr>message := []\<rparr>, None)"
    by (simp add: constructor_defs example_defs)
  show ?thesis
    using supplied_message_is_dropped [OF c, of "newTagger exampleEnv" exampleRemote]
    by (simp add: c) (simp add: example_defs)
qed

section \<open>The release name derived from the ref\<close>

text \<open>
  Claim C4. For the branch \<^verbatim>\<open>feature/tags/x\<close> the three replacements of \<^verbatim>\<open>setRelease\<close>
  are not anchored at the start of the text: after \<^verbatim>\<open>refs/\<close> and \<^verbatim>\<open>heads/\<close> the inner
  \<^verbatim>\<open>tags/\<close> is removed as well, and the release name is \<^verbatim>\<open>feature-x\<close>, where the
  derivation by leading segments gives \<^verbatim>\<open>feature-tags-x\<close>.
\<close>

theorem setRelease_removes_inner_segments:
  "constructor (exampleEnv\<lparr>GITHUB_REF := ''refs/heads/feature/tags/x''\<rparr>) =
     Inr (exampleConnection\<lparr>ref := ''refs/heads/feature/tags/x''\<rparr>, None) \<and>
   release (exampleConnection\<lparr>ref := ''refs/heads/feature/tags/x''\<rparr>) = ''feature-x'' \<and>
   specReleaseName ''refs/heads/feature/tags/x'' = ''feature-tags-x''"
  by (simp add: constructor_defs example_defs specReleaseName_def stripLeading_def)

text \<open>The two examples of the specification, and the default of the tag name.\<close>

lemma setRelease_examples:
  "release (setRelease (exampleEnv\<lparr>getInput := (\<lambda>n. [])\<rparr>) (newConnection\<lparr>ref := ''refs/heads/feature/x''\<rparr>)) = ''feature-x''"
  "release (setRelease (exampleEnv\<lparr>getInput := (\<lambda>n. [])\<rparr>) (newConnection\<lparr>ref := ''refs/tags/v2.0''\<rparr>)) = ''v2.0''"
  by (simp_all add: constructor_defs example_defs)

lemma setRelease_tag_default:
  "getInput env ''tag'' = [] \<Longrightarrow> tag (setRelease env c) = release (setRelease env c)"
  by (simp add: setRelease_def Let_def)

section \<open>A missing file\<close>

lemma setFilesLoop_missing:
  "oneFile \<in> set ts \<Longrightarrow> \<not> (isAbsolute env oneFile \<and> existsSync env oneFile) \<Longrightarrow>
   \<not> existsSync env (resolve env (GITHUB_WORKSPACE env) oneFile) \<Longrightarrow>
   \<exists>e. setFilesLoop env ts c = Inl e"
proof (induction ts arbitrary: c)
  case Nil
  then show ?case by simp
next
  case (Cons t ts)
  show ?case
  proof (cases "findFile env t")
    case (Inl e)
    then show ?thesis by simp
  next
    case (Inr p)
    have "t \<noteq> oneFile"
    proof
      assume "t = oneFile"
      with Cons.prems have "findFile env t = Inl (CouldNotFind oneFile)"
        by (auto simp: findFile_def Let_def)
      with Inr show False by simp
    qed
    with Cons.prems have "oneFile \<in> set ts" by simp
    from Cons.IH [OF this Cons.prems(2,3)] Inr show ?thesis by simp
  qed
qed

text \<open>
  Claim C8. When a token of the file list is not an absolute path that exists and does
  not exist when resolved against the workspace either, the program ends with an error
  in the constructor: the remote state is the one it started from, and no call at all
  was sent.
\<close>

theorem missing_file_ends_run_before_any_call:
  assumes "oneFile \<in> set (splitFiles (getInput env ''files''))"
    and "\<not> (isAbsolute env oneFile \<and> existsSync env oneFile)"
    and "\<not> existsSync env (resolve env (GITHUB_WORKSPACE env) oneFile)"
  shows "\<exists>e. main env s = Inl (e, s)"
proof -
  have "\<exists>e. setFiles env c = Inl e" for c
    using setFilesLoop_missing [OF assms, of c]
    by (auto simp: setFiles_def getInputRequired_def split: sum.splits)
  then have "\<exists>e. constructor env = Inl e"
    by (simp add: constructor_def Let_def split: sum.splits) (metis sum.distinct(1))
  then show ?thesis
    by (auto simp: main_def)
qed

theorem missing_file_ends_run_before_any_call_witness:
  "''missing.zip'' \<in> set (splitFiles (getInput (exampleEnv\<lparr>getInput := (exampleInputs(''files'' := ''dist/a.zip, missing.zip''))\<rparr>) ''files'')) \<and>
   main (exampleEnv\<lparr>getInput := (exampleInputs(''files'' := ''dist/a.zip, missing.zip''))\<rparr>) exampleRemote =
     Inl (CouldNotFind ''missing.zip'', exampleRemote)"
proof -
  let ?env = "exampleEnv\<lparr>getInput := (exampleInputs(''files'' := ''dist/a.zip, missing.zip''))\<rparr>"
  have m: "''missing.zip'' \<in> set (splitFiles (getInput ?env ''files''))"
    by (simp add: example_defs splitFiles_def isDelimiter_def)
  have a: "\<not> (isAbsolute ?env ''missing.zip'' \<and> existsSync ?env ''missing.zip'')"
    by (simp add: example_defs)
  have r: "\<not> existsSync ?env (resolve ?env (GITHUB_WORKSPACE ?env) ''missing.zip'')"
    by (simp add: example_defs)
  have c: "constructor ?env = Inl (CouldNotFind ''missing.zip'')"
    by (simp add: constructor_defs example_defs)
  from missing_file_ends_run_before_any_call [OF m a r, of exampleRemote] m
  show ?thesis by (simp add: main_def c)
qed

section \<open>The tag stage\<close>

lemma request_fault [simp]:
  "transportFails s \<Longrightarrow> request k eff s = Inl (RequestFailed k, send k s)"
  by (simp add: request_def)

lemma request_sent:
  "\<not> transportFails s \<Longrightarrow>
   request k eff s = (case eff (send k s) of None \<Rightarrow> Inl (RequestFailed k, send k s)
                      | Some (x, s') \<Rightarrow> Inr (x, s'))"
  by (simp add: request_def)

lemma send_fields [simp]:
  "refs (send k s) = refs s" "tagObjects (send k s) = tagObjects s"
  "releases (send k s) = releases s" "assets (send k s) = assets s"
  "nextId (send k s) = nextId s" "hashObject (send k s) = hashObject s"
  "faults (send k s) = faults s"
  by (simp_all add: send_def)

lemma tagsOf_send [simp]: "tagsOf (send k s) = tagsOf s"
  by (simp add: tagsOf_def)

lemma noFaultIn_iff:
  "noFaultIn n s = (\<forall>i<n. length (log s) + i \<notin> set (faults s))"
  by (auto simp: noFaultIn_def list_all_iff)

lemma git_createRef_new:
  "\<not> transportFails s \<Longrightarrow> r \<notin> fst ` set (refs s) \<Longrightarrow>
   git_createRef r h s = Inr ((), (send (CreateRef r h) s)\<lparr>refs := refs s @ [(r, h)]\<rparr>)"
  by (simp add: git_createRef_def request_sent)

lemma getTag_eq:
  "getTag c s =
     (if transportFails s then Inl (RequestFailed ListTags, send ListTags s)
      else Inr (find (\<lambda>t. tag_name t = tag c) (tagsOf s), send ListTags s))"
  by (simp add: getTag_def repos_listTags_def request_sent)

lemma no_tag_no_ref:
  assumes "find (\<lambda>t. tag_name t = tag c) (tagsOf s) = None"
  shows "''refs/tags/'' @ tag c \<notin> fst ` set (refs s)"
proof
  assume "''refs/tags/'' @ tag c \<in> fst ` set (refs s)"
  then obtain t where "(''refs/tags/'' @ tag c, t) \<in> set (refs s)" by auto
  then have "\<lparr>tag_name = tag c, tag_commit = t\<rparr> \<in> set (tagsOf s)"
    by (force simp: tagsOf_def)
  with assms show False by (auto simp: find_None_iff)
qed

lemma find_snoc_new:
  "find P xs = None \<Longrightarrow> P y \<Longrightarrow> find P (xs @ [y]) = Some y"
  by (induction xs) (auto split: if_splits)

lemma tagsOf_new_ref:
  "refs s' = refs s @ [(''refs/tags/'' @ n, h)] \<Longrightarrow>
   tagsOf s' = tagsOf s @ [\<lparr>tag_name = n, tag_commit = h\<rparr>]"
  by (simp add: tagsOf_def)

text \<open>
  Claim C2. When the listing holds a tag with the resolved name, the tag stage sends the
  listing call only and returns that tag as it is, whatever it points at: no tag object
  and no ref is created or moved. When there is no such tag and the four calls of the
  stage get through, it creates one tag object for the current commit, then one ref
  \<^verbatim>\<open>refs/tags/<tagName>\<close> whose target is the SHA the platform returned for that tag
  object, and lists the tags again.
\<close>

theorem tag_is_created_once:
  "(find (\<lambda>t. tag_name t = tag c) (tagsOf s) = Some t \<longrightarrow>
      ensureTag c env s =
        (if transportFails s then Inl (RequestFailed ListTags, send ListTags s)
         else Inr (Some t, send ListTags s))) \<and>
   (find (\<lambda>t. tag_name t = tag c) (tagsOf s) = None \<and> noFaultIn 4 s \<longrightarrow>
      ensureTag c env s =
        Inr (Some \<lparr>tag_name = tag c, tag_commit = hashObject s (tagObjectOf c env)\<rparr>,
             s\<lparr>refs := refs s @ [(''refs/tags/'' @ tag c, hashObject s (tagObjectOf c env))],
               tagObjects := tagObjects s @ [tagObjectOf c env],
               log := log s @
                 [ListTags,
                  CreateTag (tag c) (message c) (sha c) ''commit'' (newTagger env),
                  CreateRef (''refs/tags/'' @ tag c) (hashObject s (tagObjectOf c env)),
                  ListTags]\<rparr>))"
proof (intro conjI impI)
  assume "find (\<lambda>t. tag_name t = tag c) (tagsOf s) = Some t"
  then show "ensureTag c env s =
        (if transportFails s then Inl (RequestFailed ListTags, send ListTags s)
         else Inr (Some t, send ListTags s))"
    by (simp add: ensureTag_def getTag_eq)
next
  let ?ob = "tagObjectOf c env"
  let ?h = "hashObject s ?ob"
  let ?s1 = "send ListTags s"
  let ?s2 = "(send (CreateTag (tag c) (message c) (sha c) ''commit'' (newTagger env)) ?s1)
               \<lparr>tagObjects := tagObjects s @ [?ob]\<rparr>"
  let ?s3 = "(send (CreateRef (''refs/tags/'' @ tag c) ?h) ?s2)
               \<lparr>refs := refs ?s2 @ [(''refs/tags/'' @ tag c, ?h)]\<rparr>"
  assume a: "find (\<lambda>t. tag_name t = tag c) (tagsOf s) = None \<and> noFaultIn 4 s"
  then have none: "find (\<lambda>t. tag_name t = tag c) (tagsOf s) = None" and nf: "noFaultIn 4 s"
    by simp_all
  have f0: "\<not> transportFails s" and f1: "\<not> transportFails ?s1"
    and f2: "\<not> transportFails ?s2" and f3: "\<not> transportFails ?s3"
    using nf by (simp_all add: noFaultIn_iff transportFails_def send_def eval_nat_numeral All_less_Suc)
  have g1: "getTag c s = Inr (None, ?s1)"
    using f0 none by (simp add: getTag_eq)
  have t: "createLightweightTag c (newTagger env) ?s1 = Inr (?h, ?s2)"
    using f1 by (simp add: createLightweightTag_def git_createTag_def request_sent
        tagObjectOf_def Let_def)
  have r: "git_createRef (''refs/tags/'' @ tag c) ?h ?s2 = Inr ((), ?s3)"
  proof (rule git_createRef_new [OF f2])
    show "''refs/tags/'' @ tag c \<notin> fst ` set (refs ?s2)"
      using no_tag_no_ref [OF none] by simp
  qed
  have ct: "createTag c env ?s1 = Inr ((), ?s3)"
    by (simp only: createTag_def Let_def t r await_simps)
  have "tagsOf ?s3 = tagsOf s @ [\<lparr>tag_name = tag c, tag_commit = ?h\<rparr>]"
    by (rule tagsOf_new_ref) simp
  then have fnd: "find (\<lambda>t. tag_name t = tag c) (tagsOf ?s3) =
      Some \<lparr>tag_name = tag c, tag_commit = ?h\<rparr>"
    using none by (simp add: find_snoc_new)
  have g2: "getTag c ?s3 = Inr (Some \<lparr>tag_name = tag c, tag_commit = ?h\<rparr>, send ListTags ?s3)"
    using f3 fnd by (simp add: getTag_eq)
  show "ensureTag c env s =
        Inr (Some \<lparr>tag_name = tag c, tag_commit = ?h\<rparr>,
             s\<lparr>refs := refs s @ [(''refs/tags/'' @ tag c, ?h)],
               tagObjects := tagObjects s @ [?ob],
               log := log s @
                 [ListTags,
                  CreateTag (tag c) (message c) (sha c) ''commit'' (newTagger env),
                  CreateRef (''refs/tags/'' @ tag c) ?h,
                  ListTags]\<rparr>)"
  proof -
    have "ensureTag c env s =
        Inr (Some \<lparr>tag_name = tag c, tag_commit = ?h\<rparr>, send ListTags ?s3)"
      by (simp only: ensureTag_def g1 ct g2 await_simps simp_thms if_True)
    moreover have "send ListTags ?s3 =
        s\<lparr>refs := refs s @ [(''refs/tags/'' @ tag c, ?h)],
          tagObjects := tagObjects s @ [?ob],
          log := log s @
            [ListTags,
             CreateTag (tag c) (message c) (sha c) ''commit'' (newTagger env),
             CreateRef (''refs/tags/'' @ tag c) ?h,
             ListTags]\<rparr>"
      by (simp add: send_def)
    ultimately show ?thesis by (simp only:)
  qed
qed

theorem tag_is_created_once_witness:
  "find (\<lambda>t. tag_name t = tag exampleConnection) (tagsOf exampleRemote) = None \<and>
   noFaultIn 4 exampleRemote \<and>
   log (final (ensureTag exampleConnection exampleEnv exampleRemote)) =
     [ListTags,
      CreateTag ''feature-x'' ''feature-x (automatically created)'' ''c0ffee'' ''commit''
        (newTagger exampleEnv),
      CreateRef ''refs/tags/feature-x'' ''tagobject-feature-x'',
      ListTags] \<and>
   find (\<lambda>t. tag_name t = tag exampleConnection)
     (tagsOf (exampleRemote\<lparr>refs := [(''refs/tags/feature-x'', ''0ld'')]\<rparr>)) =
     Some \<lparr>tag_name = ''feature-x'', tag_commit = ''0ld''\<rparr> \<and>
   ensureTag exampleConnection exampleEnv (exampleRemote\<lparr>refs := [(''refs/tags/feature-x'', ''0ld'')]\<rparr>) =
     Inr (Some \<lparr>tag_name = ''feature-x'', tag_commit = ''0ld''\<rparr>,
          exampleRemote\<lparr>refs := [(''refs/tags/feature-x'', ''0ld'')], log := [ListTags]\<rparr>)"
proof -
  let ?old = "exampleRemote\<lparr>refs := [(''refs/tags/feature-x'', ''0ld'')]\<rparr>"
  have n: "find (\<lambda>t. tag_name t = tag exampleConnection) (tagsOf exampleRemote) = None"
    by (simp add: example_defs tagsOf_def)
  have nf: "noFaultIn 4 exampleRemote"
    by (simp add: example_defs noFaultIn_iff)
  have o: "find (\<lambda>t. tag_name t = tag exampleConnection) (tagsOf ?old) =
      Some \<lparr>tag_name = ''feature-x'', tag_commit = ''0ld''\<rparr>"
    by (simp add: example_defs tagsOf_def)
  have ntf: "\<not> transportFails ?old"
    by (simp add: example_defs transportFails_def)
  from tag_is_created_once [of exampleConnection exampleRemote _ exampleEnv] n nf
  have 1: "log (final (ensureTag exampleConnection exampleEnv exampleRemote)) =
     [ListTags,
      CreateTag ''feature-x'' ''feature-x (automatically created)'' ''c0ffee'' ''commit''
        (newTagger exampleEnv),
      CreateRef ''refs/tags/feature-x'' ''tagobject-feature-x'',
      ListTags]"
    by (simp add: example_defs tagObjectOf_def)
  from tag_is_created_once [of exampleConnection ?old "\<lparr>tag_name = ''feature-x'', tag_commit = ''0ld''\<rparr>" exampleEnv] o ntf
  have 2: "ensureTag exampleConnection exampleEnv ?old =
     Inr (Some \<lparr>tag_name = ''feature-x'', tag_commit = ''0ld''\<rparr>,
          exampleRemote\<lparr>refs := [(''refs/tags/feature-x'', ''0ld'')], log := [ListTags]\<rparr>)"
    by (simp add: send_def) (simp add: example_defs)
  from n nf 1 o 2 show ?thesis by simp
qed

section \<open>The calls each method sends\<close>

lemmas api_defs =
  repos_listTags_def git_createTag_def git_createRef_def git_updateRef_def
  repos_listReleases_def repos_createRelease_def repos_updateRelease_def
  repos_listReleaseAssets_def repos_deleteReleaseAsset_def repos_uploadReleaseAsset_def

lemma log_final_api [simp]:
  "log (final (repos_listTags s)) = log s @ [ListTags]"
  "log (final (git_createTag t m ob ty tg s)) = log s @ [CreateTag t m ob ty tg]"
  "log (final (git_createRef r h s)) = log s @ [CreateRef r h]"
  "log (final (git_updateRef r h s)) = log s @ [UpdateRef r h]"
  "log (final (repos_listReleases s)) = log s @ [ListReleases]"
  "log (final (repos_createRelease t n b d p s)) = log s @ [CreateRelease t n b d p]"
  "log (final (repos_updateRelease rid n b d p s)) = log s @ [UpdateRelease rid n b d p]"
  "log (final (repos_listReleaseAssets rid s)) = log s @ [ListReleaseAssets rid]"
  "log (final (repos_deleteReleaseAsset aid s)) = log s @ [DeleteReleaseAsset aid]"
  "log (final (repos_uploadReleaseAsset rid u ct cl n dt s)) = log s @ [UploadReleaseAsset rid u ct cl n dt]"
  by (simp_all add: api_defs request_def Let_def split: url.splits)

lemma faults_final_api [simp]:
  "faults (final (repos_listTags s)) = faults s"
  "faults (final (git_createTag t m ob ty tg s)) = faults s"
  "faults (final (git_createRef r h s)) = faults s"
  "faults (final (git_updateRef r h s)) = faults s"
  "faults (final (repos_listReleases s)) = faults s"
  "faults (final (repos_createRelease t n b d p s)) = faults s"
  "faults (final (repos_updateRelease rid n b d p s)) = faults s"
  "faults (final (repos_listReleaseAssets rid s)) = faults s"
  "faults (final (repos_deleteReleaseAsset aid s)) = faults s"
  "faults (final (repos_uploadReleaseAsset rid u ct cl n dt s)) = faults s"
  by (simp_all add: api_defs request_def Let_def split: url.splits)

lemma emits_refl [simp]: "emits P s s"
  by (simp add: emits_def)

lemma emits_trans: "emits P a b \<Longrightarrow> emits P b c \<Longrightarrow> emits P a c"
  by (auto simp: emits_def)

lemma emits_one: "log s' = log s @ [k] \<Longrightarrow> P k \<Longrightarrow> emits P s s'"
  by (simp add: emits_def)

lemma emits_filter:
  "emits (\<lambda>k. \<not> P k) s s' \<Longrightarrow> filter P (log s') = filter P (log s)"
  by (auto simp: emits_def list_all_iff filter_empty_conv)

lemma keepsReleases_refl [simp]: "keepsReleases s s"
  by (simp add: keepsReleases_def)

lemma keepsReleases_trans: "keepsReleases a b \<Longrightarrow> keepsReleases b c \<Longrightarrow> keepsReleases a c"
  by (auto simp: keepsReleases_def)

text \<open>A relation that is transitive passes through a sequence of steps.\<close>

lemma await_rel:
  assumes "R s (final m)"
    and "\<And>x s'. m = Inr (x, s') \<Longrightarrow> R s' (final (f x s'))"
    and "\<And>a b c. R a b \<Longrightarrow> R b c \<Longrightarrow> R a c"
  shows "R s (final (await m f))"
proof (cases m)
  case (Inl e)
  with assms(1) show ?thesis by (cases e) simp
next
  case (Inr r)
  obtain x s' where r: "r = (x, s')" by (cases r)
  from assms(1) Inr r have "R s s'" by simp
  moreover from assms(2) Inr r have "R s' (final (f x s'))" by simp
  ultimately show ?thesis using assms(3) Inr r by auto
qed

lemma await_emits:
  "emits P s (final m) \<Longrightarrow> (\<And>x s'. m = Inr (x, s') \<Longrightarrow> emits P s' (final (f x s'))) \<Longrightarrow>
   emits P s (final (await m f))"
  by (rule await_rel [where R = "emits P"]) (auto intro: emits_trans)

lemma await_keepsReleases:
  "keepsReleases s (final m) \<Longrightarrow>
   (\<And>x s'. m = Inr (x, s') \<Longrightarrow> keepsReleases s' (final (f x s'))) \<Longrightarrow>
   keepsReleases s (final (await m f))"
  by (rule await_rel [where R = keepsReleases]) (auto intro: keepsReleases_trans)

lemma emits_getTag: "P ListTags \<Longrightarrow> emits P s (final (getTag c s))"
  unfolding getTag_def by (rule await_emits) (auto intro: emits_one)

lemma emits_createTag:
  "(\<And>t m ob ty tg. P (CreateTag t m ob ty tg)) \<Longrightarrow> (\<And>r h. P (CreateRef r h)) \<Longrightarrow>
   emits P s (final (createTag c env s))"
  unfolding createTag_def createLightweightTag_def Let_def
  by (rule await_emits) (auto intro: emits_one)

lemma emits_ensureTag:
  "P ListTags \<Longrightarrow> (\<And>t m ob ty tg. P (CreateTag t m ob ty tg)) \<Longrightarrow> (\<And>r h. P (CreateRef r h)) \<Longrightarrow>
   emits P s (final (ensureTag c env s))"
  unfolding ensureTag_def
  by (rule await_emits) (auto intro!: emits_getTag emits_createTag await_emits)

lemma emits_getReleaseID: "P ListReleases \<Longrightarrow> emits P s (final (getReleaseID c s))"
  unfolding getReleaseID_def
  by (rule await_emits) (auto intro: emits_one split: option.splits)




lemma emits_updateRelease:
  "(\<And>rid n b d p. P (UpdateRelease rid n b d p)) \<Longrightarrow> emits P s (final (updateRelease c rid s))"
  unfolding updateRelease_def by (auto intro: emits_one)

lemma emits_getReleaseAssets:
  "P ListReleases \<Longrightarrow> (\<And>rid. P (ListReleaseAssets rid)) \<Longrightarrow>
   emits P s (final (getReleaseAssets c s))"
  unfolding getReleaseAssets_def
  by (intro await_emits emits_getReleaseID) (auto intro!: await_emits intro: emits_one)

lemma emits_deleteLoop:
  "(\<And>aid. P (DeleteReleaseAsset aid)) \<Longrightarrow> emits P s (final (deleteLoop c env a as r s))"
proof (induction as arbitrary: r s)
  case Nil
  then show ?case by simp
next
  case (Cons x as)
  have del: "emits P s' (final (repos_deleteReleaseAsset aid s'))" for s' aid
    by (rule emits_one [where k = "DeleteReleaseAsset aid"]) (simp_all add: Cons.prems)
  have rest: "emits P s' (final (deleteLoop c env a as r' s'))" for s' r'
    by (rule Cons.IH) (simp_all add: Cons.prems)
  show ?case
    by (auto intro!: await_emits del rest)
qed

lemma emits_deleteAssetsIfTheyExist:
  "P ListReleases \<Longrightarrow> (\<And>rid. P (ListReleaseAssets rid)) \<Longrightarrow> (\<And>aid. P (DeleteReleaseAsset aid)) \<Longrightarrow>
   emits P s (final (deleteAssetsIfTheyExist c env a s))"
  unfolding deleteAssetsIfTheyExist_def
  by (intro await_emits emits_getReleaseAssets) (auto intro!: emits_deleteLoop split: option.splits)

lemma emits_getReleaseUploadURL:
  "P ListReleases \<Longrightarrow> emits P s (final (getReleaseUploadURL c s))"
  unfolding getReleaseUploadURL_def getRepos_def
  by (rule await_emits) (auto intro: emits_one split: option.splits)

lemma emits_uploadLoop:
  "P ListReleases \<Longrightarrow> (\<And>rid u ct cl n d. P (UploadReleaseAsset rid u ct cl n d)) \<Longrightarrow>
   emits P s (final (uploadLoop c env rid fs s))"
proof (induction fs arbitrary: s)
  case Nil
  then show ?case by simp
next
  case (Cons x fs)
  have up: "emits P s' (final (repos_uploadReleaseAsset rid u ct cl n dt s'))" for s' u ct cl n dt
    by (rule emits_one [where k = "UploadReleaseAsset rid u ct cl n dt"]) (simp_all add: Cons.prems)
  have rest: "emits P s' (final (uploadLoop c env rid fs s'))" for s'
    by (rule Cons.IH) (simp_all add: Cons.prems)
  show ?case
    by (auto intro!: await_emits emits_getReleaseUploadURL up rest Cons.prems
        simp: Let_def split: option.splits)
qed

lemma emits_updateTag:
  "(\<And>r h. P (UpdateRef r h)) \<Longrightarrow> emits P s (final (updateTag c env s))"
  unfolding updateTag_def by (auto intro: emits_one)

lemma emits_publish:
  assumes "P ListReleases" "\<And>rid. P (ListReleaseAssets rid)" "\<And>aid. P (DeleteReleaseAsset aid)"
    "\<And>rid n b d p. P (UpdateRelease rid n b d p)"
    "\<And>rid u ct cl n d. P (UploadReleaseAsset rid u ct cl n d)"
    "\<And>r h. \<not> isFalsyString (getInput env ''updateTag'') \<Longrightarrow> P (UpdateRef r h)"
  shows "emits P s (final (publish c env rid s))"
  unfolding publish_def uploadAssets_def
  by (intro await_emits emits_updateRelease emits_deleteAssetsIfTheyExist emits_uploadLoop)
     (auto intro!: emits_updateTag assms)


section \<open>Evaluating whole runs\<close>

lemmas method_defs =
  createLightweightTag_def createRelease_def updateRelease_def createTag_def getReleases_def
  doesReleaseExist_def getReleaseID_def getReleaseAssets_def shouldDelete_def
  deleteAssetsIfTheyExist_def getRepos_def getReleaseUploadURL_def getTag_def updateTag_def
  defaultAssetContentType_def uploadAssets_def ensureTag_def ensureRelease_def publish_def
  run_def newTagger_def Let_def

lemmas remote_defs = api_defs request_def send_def transportFails_def tagsOf_def

lemma run_example_log:
  "log (final (run exampleConnection exampleEnv exampleRemote)) =
     [ListTags,
      CreateTag ''feature-x'' ''feature-x (automatically created)'' ''c0ffee'' ''commit''
        (newTagger exampleEnv),
      CreateRef ''refs/tags/feature-x'' ''tagobject-feature-x'',
      ListTags, ListReleases,
      CreateRelease ''feature-x'' ''feature-x'' ''notes'' False True,
      ListReleases,
      UpdateRelease 1 ''feature-x'' ''notes'' False True,
      ListReleases, ListReleaseAssets 1, ListReleases,
      UploadReleaseAsset 1 (UploadUrl 1) ''application/octet-stream'' 2 ''a.zip'' ''PK'',
      UpdateRef ''tags/feature-x'' ''c0ffee'']"
  by (simp add: method_defs remote_defs example_defs isTruthyString_def isFalsyString_def)

section \<open>Deleting assets\<close>

lemma matchFiles_iff:
  "matchFiles env a fs b = (b \<or> asset_name a \<in> basename env ` set fs)"
  by (induction fs arbitrary: b) auto

lemma shouldDelete_iff:
  "shouldDelete c env allExisting a =
     (allExisting \<or> asset_name a \<in> basename env ` set (files c))"
  by (simp add: shouldDelete_def matchFiles_iff)

lemma repos_deleteReleaseAsset_Inr:
  "repos_deleteReleaseAsset aid s = Inr (u, s') \<Longrightarrow>
   log s' = log s @ [DeleteReleaseAsset aid] \<and>
   assets s' = filter (\<lambda>a. asset_id a \<noteq> aid) (assets s)"
  by (auto simp: repos_deleteReleaseAsset_def request_def send_def split: if_splits)

lemma repos_deleteReleaseAsset_Inl:
  "repos_deleteReleaseAsset aid s = Inl (e, s') \<Longrightarrow>
   e = RequestFailed (DeleteReleaseAsset aid) \<and> log s' = log s @ [DeleteReleaseAsset aid] \<and>
   assets s' = assets s"
  by (auto simp: repos_deleteReleaseAsset_def request_def send_def split: if_splits)

lemma deleteLoop_Inr:
  "deleteLoop c env allExisting as r s = Inr (r', s') \<Longrightarrow>
   log s' = log s @ map (\<lambda>a. DeleteReleaseAsset (asset_id a)) (marked c env allExisting as) \<and>
   assets s' = filter (\<lambda>a. asset_id a \<notin> asset_id ` set (marked c env allExisting as)) (assets s)"
proof (induction as arbitrary: r s)
  case Nil
  then show ?case by (simp add: marked_def)
next
  case (Cons x as)
  show ?case
  proof (cases "shouldDelete c env allExisting x")
    case True
    with Cons.prems obtain u s1 where d: "repos_deleteReleaseAsset (asset_id x) s = Inr (u, s1)"
      and rest: "deleteLoop c env allExisting as True s1 = Inr (r', s')"
      by (cases "repos_deleteReleaseAsset (asset_id x) s") auto
    from Cons.IH [OF rest] repos_deleteReleaseAsset_Inr [OF d] True
    show ?thesis by (auto simp: marked_def intro: filter_cong)
  next
    case False
    with Cons.prems have "deleteLoop c env allExisting as r s = Inr (r', s')" by simp
    from Cons.IH [OF this] False show ?thesis by (simp add: marked_def)
  qed
qed

lemma deleteLoop_Inl:
  "deleteLoop c env allExisting as r s = Inl (e, s') \<Longrightarrow>
   \<exists>done a rest. marked c env allExisting as = done @ a # rest \<and>
     e = RequestFailed (DeleteReleaseAsset (asset_id a)) \<and>
     log s' = log s @ map (\<lambda>a. DeleteReleaseAsset (asset_id a)) (done @ [a])"
proof (induction as arbitrary: r s)
  case Nil
  then show ?case by simp
next
  case (Cons x as)
  show ?case
  proof (cases "shouldDelete c env allExisting x")
    case True
    show ?thesis
    proof (cases "repos_deleteReleaseAsset (asset_id x) s")
      case (Inl p)
      with Cons.prems True have p: "p = (e, s')" by simp
      from repos_deleteReleaseAsset_Inl [OF Inl [unfolded p]] True
      have "marked c env allExisting (x # as) = [] @ x # marked c env allExisting as \<and>
            e = RequestFailed (DeleteReleaseAsset (asset_id x)) \<and>
            log s' = log s @ map (\<lambda>a. DeleteReleaseAsset (asset_id a)) ([] @ [x])"
        by (simp add: marked_def)
      then show ?thesis by blast
    next
      case (Inr p)
      obtain u s1 where p: "p = (u, s1)" by (cases p)
      from Cons.prems True Inr p
      have rest: "deleteLoop c env allExisting as True s1 = Inl (e, s')" by simp
      from Cons.IH [OF rest] obtain dn a rs where
        m: "marked c env allExisting as = dn @ a # rs"
        and e: "e = RequestFailed (DeleteReleaseAsset (asset_id a))"
        and l: "log s' = log s1 @ map (\<lambda>a. DeleteReleaseAsset (asset_id a)) (dn @ [a])"
        by blast
      from repos_deleteReleaseAsset_Inr [OF Inr [unfolded p]] m e l True
      have "marked c env allExisting (x # as) = (x # dn) @ a # rs \<and>
            e = RequestFailed (DeleteReleaseAsset (asset_id a)) \<and>
            log s' = log s @ map (\<lambda>a. DeleteReleaseAsset (asset_id a)) ((x # dn) @ [a])"
        by (simp add: marked_def)
      then show ?thesis by blast
    qed
  next
    case False
    with Cons.prems have "deleteLoop c env allExisting as r s = Inl (e, s')" by simp
    from Cons.IH [OF this] False show ?thesis by (simp add: marked_def)
  qed
qed

lemma getReleaseAssets_published:
  "getReleaseAssets exampleConnection (publishedRemote\<lparr>faults := fs\<rparr>) =
     (if 0 \<in> set fs then Inl (RequestFailed ListReleases, publishedRemote\<lparr>faults := fs, log := [ListReleases]\<rparr>)
      else if 1 \<in> set fs
      then Inl (RequestFailed (ListReleaseAssets 1),
                publishedRemote\<lparr>faults := fs, log := [ListReleases, ListReleaseAssets 1]\<rparr>)
      else Inr (Some [\<lparr>asset_id = 10, asset_name = ''a.zip'', asset_release = 1\<rparr>,
                      \<lparr>asset_id = 11, asset_name = ''b.zip'', asset_release = 1\<rparr>],
                publishedRemote\<lparr>faults := fs, log := [ListReleases, ListReleaseAssets 1]\<rparr>))"
  by (simp add: method_defs remote_defs example_defs)

text \<open>
  Claim C3. An asset of the release is marked for deletion exactly when the replace-all
  flag is set or its name is the basename of one of the incoming files. When the
  deletion phase comes back, the deletion calls it sent are those of the marked assets
  of the listing, in the order of the listing, and the assets left are those whose id
  is not a marked one. In the example with \<^verbatim>\<open>a.zip\<close> and \<^verbatim>\<open>b.zip\<close> on the release and
  \<^verbatim>\<open>a.zip\<close> incoming, only \<^verbatim>\<open>a.zip\<close> is deleted; with replace-all both are deleted
  before the upload.
\<close>

theorem assets_deleted_iff_marked:
  "shouldDelete c env allExisting a =
     (allExisting \<or> asset_name a \<in> basename env ` set (files c)) \<and>
   (getReleaseAssets c s = Inr (Some as, s1) \<and>
    deleteAssetsIfTheyExist c env allExisting s = Inr (r, s') \<longrightarrow>
      log s' = log s1 @ map (\<lambda>a. DeleteReleaseAsset (asset_id a))
                          (filter (shouldDelete c env allExisting) as) \<and>
      assets s' = filter (\<lambda>a. asset_id a \<notin> asset_id ` set (filter (shouldDelete c env allExisting) as))
                    (assets s1))"
proof (rule conjI)
  show "shouldDelete c env allExisting a =
     (allExisting \<or> asset_name a \<in> basename env ` set (files c))"
    by (rule shouldDelete_iff)
next
  have "deleteLoop c env allExisting as False s1 = Inr (r, s')"
    if "getReleaseAssets c s = Inr (Some as, s1)"
      and "deleteAssetsIfTheyExist c env allExisting s = Inr (r, s')"
    using that by (simp add: deleteAssetsIfTheyExist_def)
  then show "getReleaseAssets c s = Inr (Some as, s1) \<and>
    deleteAssetsIfTheyExist c env allExisting s = Inr (r, s') \<longrightarrow>
      log s' = log s1 @ map (\<lambda>a. DeleteReleaseAsset (asset_id a))
                          (filter (shouldDelete c env allExisting) as) \<and>
      assets s' = filter (\<lambda>a. asset_id a \<notin> asset_id ` set (filter (shouldDelete c env allExisting) as))
                    (assets s1)"
    using deleteLoop_Inr [of c env allExisting as False s1 r s'] by (simp add: marked_def)
qed

theorem assets_deleted_iff_marked_witness:
  "shouldDelete exampleConnection exampleEnv False \<lparr>asset_id = 10, asset_name = ''a.zip'', asset_release = 1\<rparr> \<and>
   \<not> shouldDelete exampleConnection exampleEnv False \<lparr>asset_id = 11, asset_name = ''b.zip'', asset_release = 1\<rparr> \<and>
   deleteAssetsIfTheyExist exampleConnection exampleEnv False publishedRemote =
     Inr (True, publishedRemote
            \<lparr>assets := [\<lparr>asset_id = 11, asset_name = ''b.zip'', asset_release = 1\<rparr>],
             log := [ListReleases, ListReleaseAssets 1, DeleteReleaseAsset 10]\<rparr>) \<and>
   log (final (publish exampleConnection
                 (exampleEnv\<lparr>getInput := (exampleInputs(''replace'' := ''true''))\<rparr>) 1 publishedRemote)) =
     [UpdateRelease 1 ''feature-x'' ''notes'' False True,
      ListReleases, ListReleaseAssets 1, DeleteReleaseAsset 10, DeleteReleaseAsset 11,
      ListReleases,
      UploadReleaseAsset 1 (UploadUrl 1) ''application/octet-stream'' 2 ''a.zip'' ''PK'',
      UpdateRef ''tags/feature-x'' ''c0ffee'']"
proof -
  let ?a = "\<lparr>asset_id = 10, asset_name = ''a.zip'', asset_release = 1\<rparr>"
  let ?b = "\<lparr>asset_id = 11, asset_name = ''b.zip'', asset_release = 1\<rparr>"
  let ?s1 = "publishedRemote\<lparr>log := [ListReleases, ListReleaseAssets 1]\<rparr>"
  let ?s' = "publishedRemote\<lparr>assets := [?b], log := [ListReleases, ListReleaseAssets 1, DeleteReleaseAsset 10]\<rparr>"
  have g: "getReleaseAssets exampleConnection publishedRemote = Inr (Some [?a, ?b], ?s1)"
    using getReleaseAssets_published [of "[]"] by (simp add: publishedRemote_def exampleRemote_def)
  have d: "deleteAssetsIfTheyExist exampleConnection exampleEnv False publishedRemote = Inr (True, ?s')"
    by (simp add: method_defs remote_defs example_defs)
  have a: "shouldDelete exampleConnection exampleEnv False ?a"
    using assets_deleted_iff_marked [of exampleConnection exampleEnv False ?a publishedRemote "[?a, ?b]" ?s1 True ?s']
    by (simp add: example_defs)
  have b: "\<not> shouldDelete exampleConnection exampleEnv False ?b"
    by (simp add: shouldDelete_def example_defs)
  have p: "log (final (publish exampleConnection
                 (exampleEnv\<lparr>getInput := (exampleInputs(''replace'' := ''true''))\<rparr>) 1 publishedRemote)) =
     [UpdateRelease 1 ''feature-x'' ''notes'' False True,
      ListReleases, ListReleaseAssets 1, DeleteReleaseAsset 10, DeleteReleaseAsset 11,
      ListReleases,
      UploadReleaseAsset 1 (UploadUrl 1) ''application/octet-stream'' 2 ''a.zip'' ''PK'',
      UpdateRef ''tags/feature-x'' ''c0ffee'']"
    by (simp add: method_defs remote_defs example_defs isTruthyString_def isFalsyString_def)
  from a b d p show ?thesis by simp
qed

text \<open>
  Claim C7 as stated says that a failed deletion does not stop the remaining ones. It
  does: with both assets marked and the first deletion failing, the run ends there and
  the deletion of the second asset is never sent.
\<close>

theorem failed_deletion_skips_the_rest:
  "filter (shouldDelete exampleConnection exampleEnv True)
     [\<lparr>asset_id = 10, asset_name = ''a.zip'', asset_release = 1\<rparr>,
      \<lparr>asset_id = 11, asset_name = ''b.zip'', asset_release = 1\<rparr>] =
     [\<lparr>asset_id = 10, asset_name = ''a.zip'', asset_release = 1\<rparr>,
      \<lparr>asset_id = 11, asset_name = ''b.zip'', asset_release = 1\<rparr>] \<and>
   deleteAssetsIfTheyExist exampleConnection exampleEnv True (publishedRemote\<lparr>faults := [2]\<rparr>) =
     Inl (RequestFailed (DeleteReleaseAsset 10),
          publishedRemote\<lparr>faults := [2],
                          log := [ListReleases, ListReleaseAssets 1, DeleteReleaseAsset 10]\<rparr>) \<and>
   DeleteReleaseAsset 11 \<notin>
     set (log (final (deleteAssetsIfTheyExist exampleConnection exampleEnv True
                        (publishedRemote\<lparr>faults := [2]\<rparr>))))"
  by (simp add: method_defs remote_defs example_defs)

text \<open>
  Claim C7, amended. Each deletion of a marked asset is a remote call of its own, sent
  in the order of the listing; the first deletion that fails ends the run with that
  call's error, and the marked assets listed after it are not attempted.
\<close>

theorem deletion_ends_at_first_failure:
  "getReleaseAssets c s = Inr (Some as, s1) \<Longrightarrow>
   deleteAssetsIfTheyExist c env allExisting s = Inl (e, s') \<Longrightarrow>
   \<exists>done a rest. filter (shouldDelete c env allExisting) as = done @ a # rest \<and>
     e = RequestFailed (DeleteReleaseAsset (asset_id a)) \<and>
     log s' = log s1 @ map (\<lambda>a. DeleteReleaseAsset (asset_id a)) (done @ [a])"
proof -
  assume "getReleaseAssets c s = Inr (Some as, s1)"
    and "deleteAssetsIfTheyExist c env allExisting s = Inl (e, s')"
  then have "deleteLoop c env allExisting as False s1 = Inl (e, s')"
    by (simp add: deleteAssetsIfTheyExist_def)
  from deleteLoop_Inl [OF this] show ?thesis by (simp add: marked_def)
qed

theorem deletion_ends_at_first_failure_witness:
  "getReleaseAssets exampleConnection (publishedRemote\<lparr>faults := [2]\<rparr>) =
     Inr (Some [\<lparr>asset_id = 10, asset_name = ''a.zip'', asset_release = 1\<rparr>,
                \<lparr>asset_id = 11, asset_name = ''b.zip'', asset_release = 1\<rparr>],
          publishedRemote\<lparr>faults := [2], log := [ListReleases, ListReleaseAssets 1]\<rparr>) \<and>
   deleteAssetsIfTheyExist exampleConnection exampleEnv True (publishedRemote\<lparr>faults := [2]\<rparr>) =
     Inl (RequestFailed (DeleteReleaseAsset 10),
          publishedRemote\<lparr>faults := [2],
                          log := [ListReleases, ListReleaseAssets 1, DeleteReleaseAsset 10]\<rparr>) \<and>
   (\<exists>done a rest.
      filter (shouldDelete exampleConnection exampleEnv True)
        [\<lparr>asset_id = 10, asset_name = ''a.zip'', asset_release = 1\<rparr>,
         \<lparr>asset_id = 11, asset_name = ''b.zip'', asset_release = 1\<rparr>] = done @ a # rest \<and>
      RequestFailed (DeleteReleaseAsset 10) = RequestFailed (DeleteReleaseAsset (asset_id a)) \<and>
      [ListReleases, ListReleaseAssets 1, DeleteReleaseAsset 10] =
        [ListReleases, ListReleaseAssets 1] @ map (\<lambda>a. DeleteReleaseAsset (asset_id a)) (done @ [a]))"
proof -
  let ?a = "\<lparr>asset_id = 10, asset_name = ''a.zip'', asset_release = 1\<rparr>"
  let ?b = "\<lparr>asset_id = 11, asset_name = ''b.zip'', asset_release = 1\<rparr>"
  let ?s = "publishedRemote\<lparr>faults := [2]\<rparr>"
  let ?s1 = "publishedRemote\<lparr>faults := [2], log := [ListReleases, ListReleaseAssets 1]\<rparr>"
  let ?s' = "publishedRemote\<lparr>faults := [2], log := [ListReleases, ListReleaseAssets 1, DeleteReleaseAsset 10]\<rparr>"
  have g: "getReleaseAssets exampleConnection ?s = Inr (Some [?a, ?b], ?s1)"
    by (simp add: getReleaseAssets_published)
  have d: "deleteAssetsIfTheyExist exampleConnection exampleEnv True ?s =
      Inl (RequestFailed (DeleteReleaseAsset 10), ?s')"
    by (simp add: method_defs remote_defs example_defs)
  from deletion_ends_at_first_failure [OF g d]
  have "\<exists>done a rest.
      filter (shouldDelete exampleConnection exampleEnv True) [?a, ?b] = done @ a # rest \<and>
      RequestFailed (DeleteReleaseAsset 10) = RequestFailed (DeleteReleaseAsset (asset_id a)) \<and>
      [ListReleases, ListReleaseAssets 1, DeleteReleaseAsset 10] =
        [ListReleases, ListReleaseAssets 1] @ map (\<lambda>a. DeleteReleaseAsset (asset_id a)) (done @ [a])"
    by simp
  with g d show ?thesis by blast
qed

section \<open>The release stage and its identifier\<close>

lemma keepsReleases_api [simp]:
  "keepsReleases s (final (repos_listTags s))"
  "keepsReleases s (final (git_createTag t m ob ty tg s))"
  "keepsReleases s (final (git_createRef r h s))"
  "keepsReleases s (final (git_updateRef r h s))"
  "keepsReleases s (final (repos_listReleases s))"
  "keepsReleases s (final (repos_listReleaseAssets rid s))"
  "keepsReleases s (final (repos_deleteReleaseAsset aid s))"
  "keepsReleases s (final (repos_uploadReleaseAsset rid u ct cl n dt s))"
  by (simp_all add: keepsReleases_def api_defs request_def send_def Let_def split: url.splits)

lemma keepsReleases_getTag: "keepsReleases s (final (getTag c s))"
  unfolding getTag_def by (rule await_keepsReleases) auto

lemma keepsReleases_createTag: "keepsReleases s (final (createTag c env s))"
  unfolding createTag_def createLightweightTag_def Let_def
  by (rule await_keepsReleases) auto

lemma keepsReleases_ensureTag: "keepsReleases s (final (ensureTag c env s))"
  unfolding ensureTag_def
  by (rule await_keepsReleases)
     (auto intro!: keepsReleases_getTag keepsReleases_createTag await_keepsReleases)

lemma keepsReleases_getReleaseID: "keepsReleases s (final (getReleaseID c s))"
  unfolding getReleaseID_def
  by (rule await_keepsReleases) (auto split: option.splits)

lemma keepsReleases_getReleaseAssets: "keepsReleases s (final (getReleaseAssets c s))"
  unfolding getReleaseAssets_def
  by (intro await_keepsReleases keepsReleases_getReleaseID) (auto intro!: await_keepsReleases)

lemma keepsReleases_deleteLoop: "keepsReleases s (final (deleteLoop c env a as r s))"
  by (induction as arbitrary: r s) (auto intro!: await_keepsReleases)

lemma keepsReleases_deleteAssetsIfTheyExist:
  "keepsReleases s (final (deleteAssetsIfTheyExist c env a s))"
  unfolding deleteAssetsIfTheyExist_def
  by (intro await_keepsReleases keepsReleases_getReleaseAssets)
     (auto intro!: keepsReleases_deleteLoop split: option.splits)

lemma keepsReleases_getReleaseUploadURL: "keepsReleases s (final (getReleaseUploadURL c s))"
  unfolding getReleaseUploadURL_def getRepos_def
  by (rule await_keepsReleases) (auto split: option.splits)

lemma keepsReleases_uploadLoop: "keepsReleases s (final (uploadLoop c env rid fs s))"
  by (induction fs arbitrary: s)
     (auto intro!: await_keepsReleases keepsReleases_getReleaseUploadURL
        simp: Let_def split: option.splits)

lemma keepsReleases_updateTag: "keepsReleases s (final (updateTag c env s))"
  unfolding updateTag_def by simp

lemma wellFormed_keepsReleases:
  "wellFormed s \<Longrightarrow> keepsReleases s s' \<Longrightarrow> wellFormed s'"
  by (auto simp: wellFormed_def keepsReleases_def list_all_iff)

lemma getReleaseID_eq:
  "getReleaseID c s =
     (if transportFails s then Inl (RequestFailed ListReleases, send ListReleases s)
      else case find (\<lambda>r. rel_name r = release c) (releases s) of
             Some r \<Rightarrow> Inr (rel_id r, send ListReleases s)
           | None \<Rightarrow> Inl (CouldNotFindId (release c), send ListReleases s))"
  by (simp add: getReleaseID_def repos_listReleases_def request_sent)

lemma find_Some_in_set: "find P xs = Some x \<Longrightarrow> x \<in> set xs \<and> P x"
  by (induction xs) (auto split: if_splits)

lemma getReleaseID_nonneg:
  assumes "wellFormed s" and "getReleaseID c s = Inr (rid, s')"
  shows "0 \<le> rid"
proof -
  from assms(2) obtain r where "find (\<lambda>r. rel_name r = release c) (releases s) = Some r"
    and "rid = rel_id r"
    by (auto simp: getReleaseID_eq split: if_splits option.splits)
  with find_Some_in_set [of "\<lambda>r. rel_name r = release c" "releases s" r] assms(1)
  show ?thesis by (auto simp: wellFormed_def list_all_iff)
qed

lemma doesReleaseExist_eq:
  "doesReleaseExist c s =
     (if transportFails s then Inl (RequestFailed ListReleases, send ListReleases s)
      else Inr (release c \<in> rel_name ` set (releases s), send ListReleases s))"
  by (simp add: doesReleaseExist_def getReleases_def repos_listReleases_def request_sent)

lemma createRelease_eq:
  "createRelease c s =
     (if transportFails s
      then Inl (RequestFailed (CreateRelease (tag c) (release c) (body c) (draft c) (prerelease c)),
                send (CreateRelease (tag c) (release c) (body c) (draft c) (prerelease c)) s)
      else Inr ((), (send (CreateRelease (tag c) (release c) (body c) (draft c) (prerelease c)) s)
                      \<lparr>releases := createdRelease c (nextId s) # releases s,
                       nextId := nextId s + 1\<rparr>))"
  by (simp add: createRelease_def repos_createRelease_def request_sent createdRelease_def)

lemma updateRelease_Inr:
  "updateRelease c rid s = Inr (u, s') \<Longrightarrow>
   releases s' = map (updatedRelease c rid) (releases s) \<and> nextId s' = nextId s"
  by (auto simp: updateRelease_def repos_updateRelease_def request_def send_def updatedRelease_def
      split: if_splits)

lemma wellFormed_created:
  "wellFormed s \<Longrightarrow> releases s' = createdRelease c (nextId s) # releases s \<Longrightarrow>
   nextId s' = nextId s + 1 \<Longrightarrow> wellFormed s'"
  by (force simp: wellFormed_def list_all_iff createdRelease_def)

text \<open>What the release stage leaves when it comes back.\<close>

lemma ensureRelease_Inr:
  assumes "ensureRelease c s = Inr (rid, s')"
  shows "\<exists>r. find (\<lambda>r. rel_name r = release c) (releases s') = Some r \<and> rid = rel_id r"
    and "release c \<in> rel_name ` set (releases s) \<Longrightarrow>
           releases s' = releases s \<and> nextId s' = nextId s \<and>
           filter isCreateRelease (log s') = filter isCreateRelease (log s)"
    and "release c \<notin> rel_name ` set (releases s) \<Longrightarrow>
           releases s' = createdRelease c (nextId s) # releases s \<and> nextId s' = nextId s + 1"
proof -
  let ?s1 = "send ListReleases s"
  from assms have nf: "\<not> transportFails s"
    by (auto simp: ensureRelease_def doesReleaseExist_eq split: if_splits)
  show "\<exists>r. find (\<lambda>r. rel_name r = release c) (releases s') = Some r \<and> rid = rel_id r"
    using assms nf
    by (auto simp: ensureRelease_def doesReleaseExist_eq createRelease_eq getReleaseID_eq
        split: if_splits option.splits)
  show "releases s' = releases s \<and> nextId s' = nextId s \<and>
        filter isCreateRelease (log s') = filter isCreateRelease (log s)"
    if "release c \<in> rel_name ` set (releases s)"
    using assms nf that
    by (auto simp: ensureRelease_def doesReleaseExist_eq getReleaseID_eq send_def
        split: if_splits option.splits)
  show "releases s' = createdRelease c (nextId s) # releases s \<and> nextId s' = nextId s + 1"
    if "release c \<notin> rel_name ` set (releases s)"
    using assms nf that
    by (auto simp: ensureRelease_def doesReleaseExist_eq createRelease_eq getReleaseID_eq send_def
        split: if_splits option.splits)
qed

lemma wellFormed_ensureRelease:
  assumes "wellFormed s" and "ensureRelease c s = Inr (rid, s')"
  shows "wellFormed s'"
proof (cases "release c \<in> rel_name ` set (releases s)")
  case True
  from ensureRelease_Inr(2) [OF assms(2) True] assms(1) show ?thesis
    by (simp add: wellFormed_def)
next
  case False
  from ensureRelease_Inr(3) [OF assms(2) False] assms(1) show ?thesis
    by (auto intro: wellFormed_created)
qed

lemma ensureRelease_nonneg:
  assumes "wellFormed s" and "ensureRelease c s = Inr (rid, s')"
  shows "0 \<le> rid"
proof -
  from ensureRelease_Inr(1) [OF assms(2)] obtain r
    where "find (\<lambda>r. rel_name r = release c) (releases s') = Some r" and "rid = rel_id r"
    by blast
  with find_Some_in_set [of "\<lambda>r. rel_name r = release c" "releases s'" r]
    wellFormed_ensureRelease [OF assms]
  show ?thesis by (auto simp: wellFormed_def list_all_iff)
qed

lemma await_cong_Inr:
  "(\<And>x s'. m = Inr (x, s') \<Longrightarrow> f x s' = g x s') \<Longrightarrow> await m f = await m g"
  by (cases m) auto

lemma wellFormed_published: "wellFormed publishedRemote"
  by (simp add: wellFormed_def example_defs)

text \<open>
  Claim C10. On a platform whose release identifiers are not negative, \<^verbatim>\<open>getReleaseID\<close>
  either returns the id of the first listed release with the resolved name, which is
  not negative, or ends the run; it has no negative value for "not found". So
  \<^verbatim>\<open>getReleaseAssets\<close> never takes its \<^verbatim>\<open>id < 0\<close> return, and \<^verbatim>\<open>run\<close> is the same program
  as \<^verbatim>\<open>run\<close> without its \<^verbatim>\<open>id >= 0\<close> test.
\<close>

theorem getReleaseID_never_negative:
  assumes "wellFormed s"
  shows "(\<forall>rid s'. getReleaseID c s = Inr (rid, s') \<longrightarrow>
            0 \<le> rid \<and>
            (\<exists>r. find (\<lambda>r. rel_name r = release c) (releases s) = Some r \<and> rid = rel_id r)) \<and>
         (\<forall>s'. getReleaseAssets c s \<noteq> Inr (None, s')) \<and>
         run c env s =
           await (ensureTag c env s) (\<lambda>t s.
           await (ensureRelease c s) (\<lambda>rid s. publish c env rid s))"
proof (intro conjI allI impI)
  fix rid s'
  assume g: "getReleaseID c s = Inr (rid, s')"
  from getReleaseID_nonneg [OF assms g] show "0 \<le> rid" .
  from g show "\<exists>r. find (\<lambda>r. rel_name r = release c) (releases s) = Some r \<and> rid = rel_id r"
    by (auto simp: getReleaseID_eq split: if_splits option.splits)
next
  fix s'
  show "getReleaseAssets c s \<noteq> Inr (None, s')"
  proof
    assume a: "getReleaseAssets c s = Inr (None, s')"
    then obtain rid s1 where g: "getReleaseID c s = Inr (rid, s1)"
      by (cases "getReleaseID c s") (auto simp: getReleaseAssets_def)
    from getReleaseID_nonneg [OF assms g] have "\<not> rid < 0" by simp
    with a g show False
      by (cases "repos_listReleaseAssets rid s1") (auto simp: getReleaseAssets_def)
  qed
next
  show "run c env s =
           await (ensureTag c env s) (\<lambda>t s.
           await (ensureRelease c s) (\<lambda>rid s. publish c env rid s))"
    unfolding run_def
  proof (rule await_cong_Inr)
    fix t s1
    assume e: "ensureTag c env s = Inr (t, s1)"
    from keepsReleases_ensureTag [of s c env] e have "keepsReleases s s1" by simp
    with assms have w: "wellFormed s1" by (rule wellFormed_keepsReleases)
    show "await (ensureRelease c s1) (\<lambda>rid s. if 0 \<le> rid then publish c env rid s else Inr ((), s)) =
          await (ensureRelease c s1) (\<lambda>rid s. publish c env rid s)"
    proof (rule await_cong_Inr)
      fix rid s2
      assume "ensureRelease c s1 = Inr (rid, s2)"
      from ensureRelease_nonneg [OF w this]
      show "(if 0 \<le> rid then publish c env rid s2 else Inr ((), s2)) = publish c env rid s2"
        by simp
    qed
  qed
qed

theorem getReleaseID_never_negative_witness:
  "wellFormed publishedRemote \<and>
   getReleaseID exampleConnection publishedRemote = Inr (1, publishedRemote\<lparr>log := [ListReleases]\<rparr>) \<and>
   find (\<lambda>r. rel_name r = release exampleConnection) (releases publishedRemote) =
     Some \<lparr>rel_id = 1, rel_name = ''feature-x'', rel_tag_name = ''feature-x'',
           rel_body = ''notes'', rel_draft = False, rel_prerelease = True,
           rel_upload_url = UploadUrl 1\<rparr> \<and>
   returned (run exampleConnection exampleEnv publishedRemote) \<and>
   run exampleConnection exampleEnv publishedRemote =
     await (ensureTag exampleConnection exampleEnv publishedRemote) (\<lambda>t s.
     await (ensureRelease exampleConnection s) (\<lambda>rid s. publish exampleConnection exampleEnv rid s))"
proof -
  have g: "getReleaseID exampleConnection publishedRemote =
      Inr (1, publishedRemote\<lparr>log := [ListReleases]\<rparr>)"
    by (simp add: method_defs remote_defs example_defs)
  have f: "find (\<lambda>r. rel_name r = release exampleConnection) (releases publishedRemote) =
     Some \<lparr>rel_id = 1, rel_name = ''feature-x'', rel_tag_name = ''feature-x'',
           rel_body = ''notes'', rel_draft = False, rel_prerelease = True,
           rel_upload_url = UploadUrl 1\<rparr>"
    by (simp add: example_defs)
  have r: "returned (run exampleConnection exampleEnv publishedRemote)"
    by (simp add: method_defs remote_defs example_defs isTruthyString_def isFalsyString_def)
  from getReleaseID_never_negative [OF wellFormed_published, of exampleConnection exampleEnv]
  have "run exampleConnection exampleEnv publishedRemote =
     await (ensureTag exampleConnection exampleEnv publishedRemote) (\<lambda>t s.
     await (ensureRelease exampleConnection s) (\<lambda>rid s. publish exampleConnection exampleEnv rid s))"
    by blast
  with wellFormed_published g f r show ?thesis by simp
qed

section \<open>Running twice\<close>

text \<open>The releases after the last stage.\<close>

lemma publish_Inr:
  assumes "publish c env rid s = Inr (u, s')"
  shows "releases s' = map (updatedRelease c rid) (releases s) \<and> nextId s \<le> nextId s'"
proof -
  from assms obtain u1 s1 where 1: "updateRelease c rid s = Inr (u1, s1)"
    and rest: "await (deleteAssetsIfTheyExist c env (isTruthyString (getInput env ''replace'')) s1) (\<lambda>_ s.
     await (uploadAssets c env rid s) (\<lambda>_ s.
     if \<not> isFalsyString (getInput env ''updateTag'') then updateTag c env s
     else Inr ((), s))) = Inr (u, s')"
    by (cases "updateRelease c rid s") (auto simp: publish_def)
  have "keepsReleases s1 (final (await (deleteAssetsIfTheyExist c env (isTruthyString (getInput env ''replace'')) s1) (\<lambda>_ s.
     await (uploadAssets c env rid s) (\<lambda>_ s.
     if \<not> isFalsyString (getInput env ''updateTag'') then updateTag c env s
     else Inr ((), s)))))"
    unfolding uploadAssets_def
    by (intro await_keepsReleases keepsReleases_deleteAssetsIfTheyExist keepsReleases_uploadLoop)
       (auto intro!: keepsReleases_updateTag)
  with rest have "keepsReleases s1 s'" by simp
  with updateRelease_Inr [OF 1] show ?thesis by (simp add: keepsReleases_def)
qed

lemma rel_id_updatedRelease [simp]: "rel_id (updatedRelease c rid r) = rel_id r"
  by (simp add: updatedRelease_def)

lemma find_filter_hd:
  "find P xs = Some x \<Longrightarrow> \<exists>ys. filter P xs = x # ys"
  by (induction xs) (auto split: if_splits)

lemma named_updated:
  assumes d: "distinct (map rel_id rs)"
    and f: "find (\<lambda>r. rel_name r = release c) rs = Some r"
  shows "filter (\<lambda>r. rel_name r = release c) (map (updatedRelease c (rel_id r)) rs) =
         map (updatedRelease c (rel_id r)) (filter (\<lambda>r. rel_name r = release c) rs)"
proof -
  from find_Some_in_set [OF f] have r: "r \<in> set rs" "rel_name r = release c" by simp_all
  have "rel_name (updatedRelease c (rel_id r) x) = release c \<longleftrightarrow> rel_name x = release c"
    if "x \<in> set rs" for x
  proof (cases "rel_id x = rel_id r")
    case True
    with d r(1) that have "x = r" by (auto simp: distinct_map dest: inj_onD)
    with r(2) show ?thesis by (simp add: updatedRelease_def)
  next
    case False
    then show ?thesis by (simp add: updatedRelease_def)
  qed
  then show ?thesis
    by (simp add: filter_map comp_def cong: filter_cong)
qed

lemma run_Inr:
  assumes w: "wellFormed s" and run: "run c env s = Inr (u, s')"
  shows "wellFormed s'"
    and "\<exists>r rs. named (release c) s' = updatedRelease c (rel_id r) r # map (updatedRelease c (rel_id r)) rs \<and>
           rel_name r = release c \<and>
           (if release c \<in> rel_name ` set (releases s)
            then named (release c) s = r # rs \<and>
                 filter isCreateRelease (log s') = filter isCreateRelease (log s)
            else rs = named (release c) s)"
proof -
  from run obtain t s1 where e: "ensureTag c env s = Inr (t, s1)"
    and rest1: "await (ensureRelease c s1) (\<lambda>rid s. if 0 \<le> rid then publish c env rid s else Inr ((), s)) = Inr (u, s')"
    by (cases "ensureTag c env s") (auto simp: run_def)
  from rest1 obtain rid s2 where er: "ensureRelease c s1 = Inr (rid, s2)"
    and rest2: "(if 0 \<le> rid then publish c env rid s2 else Inr ((), s2)) = Inr (u, s')"
    by (cases "ensureRelease c s1") auto
  from keepsReleases_ensureTag [of s c env] e have k1: "keepsReleases s s1" by simp
  with w have w1: "wellFormed s1" by (rule wellFormed_keepsReleases)
  from k1 have rel1: "releases s1 = releases s" by (simp add: keepsReleases_def)
  have w2: "wellFormed s2" by (rule wellFormed_ensureRelease [OF w1 er])
  from ensureRelease_nonneg [OF w1 er] rest2 have p: "publish c env rid s2 = Inr (u, s')" by simp
  from publish_Inr [OF p] have rel': "releases s' = map (updatedRelease c rid) (releases s2)"
    and n': "nextId s2 \<le> nextId s'" by simp_all
  from ensureRelease_Inr(1) [OF er] obtain r
    where f: "find (\<lambda>r. rel_name r = release c) (releases s2) = Some r" and rid: "rid = rel_id r"
    by blast
  show "wellFormed s'"
    using w2 rel' n' by (auto simp: wellFormed_def list_all_iff comp_def)
  from w2 have d2: "distinct (map rel_id (releases s2))" by (simp add: wellFormed_def)
  from named_updated [OF d2 f]
  have nm: "named (release c) s' = map (updatedRelease c (rel_id r)) (named (release c) s2)"
    by (simp add: named_def rel' rid)
  from find_filter_hd [OF f] obtain rs where rs: "named (release c) s2 = r # rs"
    by (auto simp: named_def)
  from find_Some_in_set [OF f] have rn: "rel_name r = release c" by simp
  have emits_tag: "emits (\<lambda>k. \<not> isCreateRelease k) s (final (ensureTag c env s))"
    by (rule emits_ensureTag) simp_all
  have emits_pub: "emits (\<lambda>k. \<not> isCreateRelease k) s2 (final (publish c env rid s2))"
    by (rule emits_publish) simp_all
  from emits_filter [OF emits_tag] e
  have l1: "filter isCreateRelease (log s1) = filter isCreateRelease (log s)" by simp
  from emits_filter [OF emits_pub] p
  have l2: "filter isCreateRelease (log s') = filter isCreateRelease (log s2)" by simp
  show "\<exists>r rs. named (release c) s' = updatedRelease c (rel_id r) r # map (updatedRelease c (rel_id r)) rs \<and>
           rel_name r = release c \<and>
           (if release c \<in> rel_name ` set (releases s)
            then named (release c) s = r # rs \<and>
                 filter isCreateRelease (log s') = filter isCreateRelease (log s)
            else rs = named (release c) s)"
  proof (cases "release c \<in> rel_name ` set (releases s)")
    case True
    with rel1 have "release c \<in> rel_name ` set (releases s1)" by simp
    from ensureRelease_Inr(2) [OF er this] rel1 l1
    have "releases s2 = releases s" and "filter isCreateRelease (log s2) = filter isCreateRelease (log s)"
      by simp_all
    with rs l2 have "named (release c) s = r # rs"
      and "filter isCreateRelease (log s') = filter isCreateRelease (log s)"
      by (simp_all add: named_def)
    with nm rs rn True show ?thesis by auto
  next
    case False
    with rel1 have "release c \<notin> rel_name ` set (releases s1)" by simp
    from ensureRelease_Inr(3) [OF er this] rel1
    have "releases s2 = createdRelease c (nextId s1) # releases s"
      by simp
    with rs have "rs = named (release c) s"
      by (simp add: named_def createdRelease_def)
    with nm rs rn False show ?thesis by auto
  qed
qed

lemma named_Nil_iff: "named n s = [] \<longleftrightarrow> n \<notin> rel_name ` set (releases s)"
  by (auto simp: named_def filter_empty_conv)

lemma updatedRelease_fields:
  "rel_body (updatedRelease c (rel_id r) r) = body c"
  "rel_draft (updatedRelease c (rel_id r) r) = draft c"
  "rel_prerelease (updatedRelease c (rel_id r) r) = prerelease c"
  by (simp_all add: updatedRelease_def)

lemma returned_unit: "returned m \<Longrightarrow> m = Inr ((), final m)"
  by (cases m) auto

text \<open>
  Claim C1. Start from a platform with unique identifiers and at most one release of
  the resolved name, and let two runs with the same Connection and environment both
  come back. Then there is exactly one release of that name, its body, draft and
  prerelease flags are those of the Connection, and the second run sent no
  \<^verbatim>\<open>createRelease\<close> call: its check found the release by its name and it took the
  update path.
\<close>

theorem two_runs_leave_one_release:
  assumes w: "wellFormed s0"
    and one: "length (named (release c) s0) \<le> 1"
    and run1: "run c env s0 = Inr (u1, s1)"
    and run2: "run c env s1 = Inr (u2, s2)"
  shows "(\<exists>r. named (release c) s2 = [r] \<and> rel_body r = body c \<and> rel_draft r = draft c \<and>
              rel_prerelease r = prerelease c) \<and>
         filter isCreateRelease (log s2) = filter isCreateRelease (log s1)"
proof -
  from run_Inr(2) [OF w run1] obtain r rs
    where n1: "named (release c) s1 = updatedRelease c (rel_id r) r # map (updatedRelease c (rel_id r)) rs"
      and c1: "if release c \<in> rel_name ` set (releases s0)
               then named (release c) s0 = r # rs \<and>
                    filter isCreateRelease (log s1) = filter isCreateRelease (log s0)
               else rs = named (release c) s0"
    by blast
  have "rs = []"
  proof (cases "release c \<in> rel_name ` set (releases s0)")
    case True
    with c1 one show ?thesis by simp
  next
    case False
    with c1 show ?thesis by (simp add: named_Nil_iff)
  qed
  with n1 have single: "named (release c) s1 = [updatedRelease c (rel_id r) r]" by simp
  then have ex: "release c \<in> rel_name ` set (releases s1)"
    using named_Nil_iff [of "release c" s1] by simp
  have w1: "wellFormed s1" by (rule run_Inr(1) [OF w run1])
  from run_Inr(2) [OF w1 run2] ex obtain r' rs'
    where n2: "named (release c) s2 = updatedRelease c (rel_id r') r' # map (updatedRelease c (rel_id r')) rs'"
      and prev: "named (release c) s1 = r' # rs'"
      and l: "filter isCreateRelease (log s2) = filter isCreateRelease (log s1)"
    by auto
  from prev single have "rs' = []" by simp
  with n2 have "named (release c) s2 = [updatedRelease c (rel_id r') r']" by simp
  with l show ?thesis by (simp add: updatedRelease_fields)
qed

theorem two_runs_leave_one_release_witness:
  "wellFormed exampleRemote \<and>
   length (named (release exampleConnection) exampleRemote) \<le> 1 \<and>
   returned (run exampleConnection exampleEnv exampleRemote) \<and>
   returned (run exampleConnection exampleEnv (final (run exampleConnection exampleEnv exampleRemote))) \<and>
   named ''feature-x''
     (final (run exampleConnection exampleEnv (final (run exampleConnection exampleEnv exampleRemote)))) =
     [\<lparr>rel_id = 1, rel_name = ''feature-x'', rel_tag_name = ''feature-x'', rel_body = ''notes'',
       rel_draft = False, rel_prerelease = True, rel_upload_url = UploadUrl 1\<rparr>] \<and>
   filter isCreateRelease
     (log (final (run exampleConnection exampleEnv (final (run exampleConnection exampleEnv exampleRemote))))) =
     [CreateRelease ''feature-x'' ''feature-x'' ''notes'' False True]"
proof -
  let ?s1 = "final (run exampleConnection exampleEnv exampleRemote)"
  let ?s2 = "final (run exampleConnection exampleEnv ?s1)"
  note evals = method_defs remote_defs example_defs isTruthyString_def isFalsyString_def
  have w: "wellFormed exampleRemote"
    by (simp add: wellFormed_def example_defs)
  have one: "length (named (release exampleConnection) exampleRemote) \<le> 1"
    by (simp add: named_def example_defs)
  have r1: "returned (run exampleConnection exampleEnv exampleRemote)"
    by (simp add: evals)
  have r2: "returned (run exampleConnection exampleEnv ?s1)"
    by (simp add: evals)
  have n: "named ''feature-x'' ?s2 =
     [\<lparr>rel_id = 1, rel_name = ''feature-x'', rel_tag_name = ''feature-x'', rel_body = ''notes'',
       rel_draft = False, rel_prerelease = True, rel_upload_url = UploadUrl 1\<rparr>]"
    by (simp add: evals named_def)
  have l1: "filter isCreateRelease (log ?s1) = [CreateRelease ''feature-x'' ''feature-x'' ''notes'' False True]"
    by (simp add: evals)
  from two_runs_leave_one_release [OF w one returned_unit [OF r1] returned_unit [OF r2]] l1
  have "filter isCreateRelease (log ?s2) = [CreateRelease ''feature-x'' ''feature-x'' ''notes'' False True]"
    by simp
  with w one r1 r2 n show ?thesis by simp
qed

section \<open>run while setBody is suspended\<close>

text \<open>
  The methods as they run while the rest of \<^verbatim>\<open>setBody\<close> is suspended are the methods
  above whenever nothing is suspended: the two readings of the code agree there.
\<close>

lemma await_assoc: "await (await m f) g = await m (\<lambda>x s. await (f x s) g)"
  by (cases m) auto

lemma await_Inr_apply: "await m (\<lambda>x s. Inr (x, s)) = m"
  by (cases m) auto

lemma answered_nothing_pending:
  "pending p = None \<Longrightarrow> answered p m = await m (\<lambda>x s. Inr ((x, p), s))"
  by (cases m) (auto simp: answered_def resume_def)

lemma await_cong_all: "(\<And>x s. f x s = g x s) \<Longrightarrow> await m f = await m g"
  by (cases m) auto

lemma getTag'_plain:
  "pending p = None \<Longrightarrow> getTag' p s = await (getTag (connection p) s) (\<lambda>x s. Inr ((x, p), s))"
  by (simp add: getTag'_def getTag_def answered_nothing_pending await_assoc)

lemma createTag'_plain:
  "pending p = None \<Longrightarrow>
   createTag' p env s = await (createTag (connection p) env s) (\<lambda>x s. Inr ((x, p), s))"
  by (simp add: createTag'_def createTag_def createLightweightTag'_def createLightweightTag_def
      answered_nothing_pending await_assoc Let_def)

lemma ensureTag'_plain:
  "pending p = None \<Longrightarrow>
   ensureTag' p env s = await (ensureTag (connection p) env s) (\<lambda>x s. Inr ((x, p), s))"
  by (auto simp: ensureTag'_def ensureTag_def getTag'_plain createTag'_plain await_assoc
      intro!: await_cong_all)

lemma doesReleaseExist'_plain:
  "pending p = None \<Longrightarrow>
   doesReleaseExist' p s = await (doesReleaseExist (connection p) s) (\<lambda>x s. Inr ((x, p), s))"
  by (simp add: doesReleaseExist'_def doesReleaseExist_def getReleases'_def getReleases_def
      answered_nothing_pending await_assoc)

lemma createRelease'_plain:
  "pending p = None \<Longrightarrow>
   createRelease' p s = await (createRelease (connection p) s) (\<lambda>x s. Inr ((x, p), s))"
  by (simp add: createRelease'_def createRelease_def answered_nothing_pending)

lemma getReleaseID'_plain:
  "pending p = None \<Longrightarrow>
   getReleaseID' p s = await (getReleaseID (connection p) s) (\<lambda>x s. Inr ((x, p), s))"
  by (auto simp: getReleaseID'_def getReleaseID_def answered_nothing_pending await_assoc
      split: option.splits intro!: await_cong_all)

lemma ensureRelease'_plain:
  "pending p = None \<Longrightarrow>
   ensureRelease' p s = await (ensureRelease (connection p) s) (\<lambda>x s. Inr ((x, p), s))"
  by (auto simp: ensureRelease'_def ensureRelease_def doesReleaseExist'_plain createRelease'_plain
      getReleaseID'_plain await_assoc intro!: await_cong_all)

lemma updateRelease'_plain:
  "pending p = None \<Longrightarrow>
   updateRelease' p rid s = await (updateRelease (connection p) rid s) (\<lambda>x s. Inr ((x, p), s))"
  by (simp add: updateRelease'_def updateRelease_def answered_nothing_pending)

lemma getReleaseAssets'_plain:
  "pending p = None \<Longrightarrow>
   getReleaseAssets' p s = await (getReleaseAssets (connection p) s) (\<lambda>x s. Inr ((x, p), s))"
  by (auto simp: getReleaseAssets'_def getReleaseAssets_def getReleaseID'_plain
      answered_nothing_pending await_assoc intro!: await_cong_all)

lemma deleteLoop'_plain:
  "pending p = None \<Longrightarrow>
   deleteLoop' p env a as r s =
     await (deleteLoop (connection p) env a as r s) (\<lambda>x s. Inr ((x, p), s))"
  by (induction as arbitrary: r s)
     (auto simp: answered_nothing_pending await_assoc intro!: await_cong_all)

lemma deleteAssetsIfTheyExist'_plain:
  "pending p = None \<Longrightarrow>
   deleteAssetsIfTheyExist' p env a s =
     await (deleteAssetsIfTheyExist (connection p) env a s) (\<lambda>x s. Inr ((x, p), s))"
  by (auto simp: deleteAssetsIfTheyExist'_def deleteAssetsIfTheyExist_def getReleaseAssets'_plain
      deleteLoop'_plain await_assoc split: option.splits intro!: await_cong_all)

lemma getReleaseUploadURL'_plain:
  "pending p = None \<Longrightarrow>
   getReleaseUploadURL' p s =
     await (getReleaseUploadURL (connection p) s) (\<lambda>x s. Inr ((x, p), s))"
  by (auto simp: getReleaseUploadURL'_def getReleaseUploadURL_def getRepos'_def getRepos_def
      answered_nothing_pending await_assoc split: option.splits intro!: await_cong_all)

lemma uploadLoop'_plain:
  "pending p = None \<Longrightarrow>
   uploadLoop' p env rid fs s =
     await (uploadLoop (connection p) env rid fs s) (\<lambda>x s. Inr ((x, p), s))"
  by (induction fs arbitrary: s)
     (auto simp: getReleaseUploadURL'_plain answered_nothing_pending await_assoc Let_def
        split: option.splits intro!: await_cong_all)

lemma updateTag'_plain:
  "pending p = None \<Longrightarrow>
   updateTag' p env s = await (updateTag (connection p) env s) (\<lambda>x s. Inr ((x, p), s))"
  by (simp add: updateTag'_def updateTag_def answered_nothing_pending)

lemma publish'_plain:
  "pending p = None \<Longrightarrow>
   publish' p env rid s = await (publish (connection p) env rid s) (\<lambda>x s. Inr ((x, p), s))"
  by (auto simp: publish'_def publish_def updateRelease'_plain deleteAssetsIfTheyExist'_plain
      uploadAssets'_def uploadAssets_def uploadLoop'_plain updateTag'_plain await_assoc
      intro!: await_cong_all)

text \<open>With nothing suspended, the second reading of \<^verbatim>\<open>run\<close> is the first.\<close>

lemma run'_plain:
  "pending p = None \<Longrightarrow>
   run' p env s = await (run (connection p) env s) (\<lambda>x s. Inr ((x, p), s))"
  by (auto simp: run'_def run_def ensureTag'_plain ensureRelease'_plain publish'_plain await_assoc
      intro!: await_cong_all)

lemmas racing_defs =
  resume_def answered_def createLightweightTag'_def createRelease'_def updateRelease'_def
  createTag'_def getReleases'_def doesReleaseExist'_def getReleaseID'_def getReleaseAssets'_def
  deleteAssetsIfTheyExist'_def getRepos'_def getReleaseUploadURL'_def getTag'_def updateTag'_def
  uploadAssets'_def ensureTag'_def ensureRelease'_def publish'_def run'_def git_getCommit_def

text \<open>
  Two runs of the whole program with an empty body input. When the answer to
  \<^verbatim>\<open>getCommit\<close> is handled first, the release is created and updated with the commit
  message. When the call is rejected and its answer is handled while the third call of
  \<^verbatim>\<open>run\<close> is in flight, the process ends there, with the tag created and no release.
\<close>

lemma main_with_setBody_suspended:
  "log (final (main (exampleEnv\<lparr>getInput := (exampleInputs(''body'' := []))\<rparr>) exampleRemote)) =
     [GetCommit ''c0ffee'', ListTags,
      CreateTag ''feature-x'' ''feature-x (automatically created)'' ''c0ffee'' ''commit''
        (newTagger exampleEnv),
      CreateRef ''refs/tags/feature-x'' ''tagobject-feature-x'',
      ListTags, ListReleases,
      CreateRelease ''feature-x'' ''feature-x'' ''first commit'' False True,
      ListReleases,
      UpdateRelease 1 ''feature-x'' ''first commit'' False True,
      ListReleases, ListReleaseAssets 1, ListReleases,
      UploadReleaseAsset 1 (UploadUrl 1) ''application/octet-stream'' 2 ''a.zip'' ''PK'',
      UpdateRef ''tags/feature-x'' ''c0ffee'']"
  "main (exampleEnv\<lparr>getInput := (exampleInputs(''body'' := []))\<rparr>)
        (exampleRemote\<lparr>answerDelay := 2, commitMessage := (\<lambda>commit_sha. None)\<rparr>) =
     Inl (RequestFailed (GetCommit ''c0ffee''),
          exampleRemote
            \<lparr>answerDelay := 2, commitMessage := (\<lambda>commit_sha. None),
             refs := [(''refs/heads/feature/x'', ''c0ffee''),
                      (''refs/tags/feature-x'', ''tagobject-feature-x'')],
             tagObjects := [tagObjectOf exampleConnection exampleEnv],
             log := [GetCommit ''c0ffee'', ListTags,
                     CreateTag ''feature-x'' ''feature-x (automatically created)'' ''c0ffee''
                       ''commit'' (newTagger exampleEnv),
                     CreateRef ''refs/tags/feature-x'' ''tagobject-feature-x'']\<rparr>)"
  by (simp_all add: main_def constructor_defs racing_defs method_defs remote_defs example_defs
      tagObjectOf_def)

section \<open>Moving the tag after the release is published\<close>






end
